theory Spec2Isabelle
  imports Main "HOL-Library.AList" "HOL-Library.Sublist"
begin

section \<open>The separate-database tenant strategy\<close>

text \<open>
  A shallow embedding of the class \<open>SeparateDatabaseStrategy\<close>: the tenant context
  cache, the pool of per-tenant database clients with its eviction, and the provisioning
  operations. The two JavaScript \<open>Map\<close>s are association lists in insertion order
  (\<open>AList.update\<close> keeps the position of an existing key and appends a new one,
  \<open>AList.delete\<close> removes a key, \<open>map_of\<close> reads), because eviction takes
  the first key of the iteration order.

  The collaborators that are not part of the class are a record \<open>backend\<close>: the
  tenant table behind \<open>masterClient.tenant\<close>, the databases that exist on the
  server, the databases on which other backends have sessions open, which requests the
  master connection rejects, which datasource URLs accept a connection and which clients
  can be disconnected. A Prisma client is a natural number (its object identity) with a
  status and a datasource URL. Every awaited call of a collaborator can fail:
  \<open>findUnique\<close>, \<open>update\<close>, \<open>$executeRawUnsafe\<close>, \<open>$connect\<close> and
  \<open>$disconnect\<close>. A row of the tenant table is found under its id, so the record has
  no id field of its own. The values of a \<open>config\<close> object are strings, of which the
  empty one is falsy; \<open>maxConnections\<close> and \<open>cacheTtl\<close> are integers. The three
  SQL statements are the commands they spell, with the database name \<open>tenant_\<close>
  followed by the tenant id.

  An \<open>async\<close> method returns \<open>error + 'a\<close> when it can reject: \<open>Inl\<close> is the
  error it throws, \<open>Inr\<close> the value it resolves to.

  Every effect is also appended to \<open>trace\<close>, a ghost field that no operation
  reads: it records the order in which the code performs its effects. A call of a
  collaborator is recorded when it is made (\<open>Issued\<close>, \<open>Connect\<close>,
  \<open>Disconnect\<close>); \<open>Closed\<close> records that a \<open>$disconnect\<close> has resolved.
\<close>

subsection \<open>Data\<close>

type_synonym json_object = "(string \<times> string) list"

datatype select = SelectIdActive | SelectAll

datatype sql =
    CreateDatabase string
  | TerminateBackends string
  | DropDatabaseIfExists string

datatype request =
    FindUnique string select
  | UpdateConfig string json_object
  | ExecuteRaw sql

datatype error =
    InvalidTenant string
  | NoDatabaseConfigured string
  | DatabaseConnectionFailed string
  | RequestFailed request
  | DisconnectFailed nat

datatype client_status = Created | Connected | Disconnected

datatype event =
    Issued request
  | Connect nat string
  | Disconnect nat
  | Closed nat
  | PoolSet string nat
  | PoolDelete string
  | PoolClear
  | CacheSet string
  | CacheDelete string
  | CacheClear
  | TimerSet nat string

record tenant_record =
  tr_name :: string
  tr_isActive :: bool
  tr_config :: "json_object option"

record TenantContext =
  ctx_id :: string
  ctx_name :: string
  ctx_config :: json_object
  ctx_database :: string

record backend =
  tenants :: "string \<rightharpoonup> tenant_record"
  databases :: "string list"
  sessions :: "string list"
  fails :: "request \<Rightarrow> bool"
  dial_ok :: "string \<Rightarrow> bool"
  disconnect_ok :: "nat \<Rightarrow> bool"

record SeparateDatabaseConfig =
  cfg_masterDatabaseUrl :: string
  cfg_databaseUrlTemplate :: "string option"
  cfg_maxConnections :: "int option"
  cfg_cacheTtl :: "int option"

record strategy =
  masterDatabaseUrl :: string
  databaseUrlTemplate :: string
  maxConnections :: int
  cacheTtl :: int
  tenantCache :: "(string \<times> TenantContext) list"
  prismaClients :: "(string \<times> nat) list"
  masterClient :: nat
  next_client :: nat
  status :: "nat \<Rightarrow> client_status"
  datasource :: "nat \<Rightarrow> string"
  now :: nat
  timers :: "(nat \<times> string) list"
  backend :: backend
  trace :: "event list"

subsection \<open>String replacement\<close>

text \<open>
  \<open>String.prototype.replace\<close> with a string pattern replaces the first occurrence
  only, and expands \<open>$$\<close>, \<open>$&\<close>, \<open>$`\<close> and \<open>$'\<close> in the replacement.
\<close>

fun split_first :: "string \<Rightarrow> string \<Rightarrow> (string \<times> string) option" where
  "split_first pat [] = (if pat = [] then Some ([], []) else None)"
| "split_first pat (c # cs) =
     (if take (length pat) (c # cs) = pat then Some ([], drop (length pat) (c # cs))
      else (case split_first pat cs of
              None \<Rightarrow> None
            | Some (pre, post) \<Rightarrow> Some (c # pre, post)))"

fun get_substitution :: "string \<Rightarrow> string \<Rightarrow> string \<Rightarrow> string \<Rightarrow> string" where
  "get_substitution matched pre post (c # d # r) =
     (if c = CHR ''$'' \<and> d = CHR ''$'' then CHR ''$'' # get_substitution matched pre post r
      else if c = CHR ''$'' \<and> d = CHR ''&'' then matched @ get_substitution matched pre post r
      else if c = CHR ''$'' \<and> d = CHR 0x60 then pre @ get_substitution matched pre post r
      else if c = CHR ''$'' \<and> d = CHR 0x27 then post @ get_substitution matched pre post r
      else c # get_substitution matched pre post (d # r))"
| "get_substitution matched pre post [c] = [c]"
| "get_substitution matched pre post [] = []"

definition js_replace :: "string \<Rightarrow> string \<Rightarrow> string \<Rightarrow> string" where
  "js_replace s pat repl =
     (case split_first pat s of
        None \<Rightarrow> s
      | Some (pre, post) \<Rightarrow> pre @ get_substitution pat pre post repl @ post)"

text \<open>
  The constructor's default template:
  \<open>masterDatabaseUrl.replace(/\/[^/]+$/, '/tenant_{tenantId}')\<close> replaces the last
  path segment when the URL has a slash that is followed by at least one character.
\<close>

definition default_template :: "string \<Rightarrow> string" where
  "default_template url =
     (let seg = takeWhile (\<lambda>c. c \<noteq> CHR ''/'') (rev url);
          rest = dropWhile (\<lambda>c. c \<noteq> CHR ''/'') (rev url)
      in if seg \<noteq> [] \<and> rest \<noteq> [] then rev (tl rest) @ ''/tenant_{tenantId}'' else url)"

subsection \<open>Primitive effects\<close>

definition emit :: "event \<Rightarrow> strategy \<Rightarrow> strategy" where
  "emit e st = st\<lparr>trace := trace st @ [e]\<rparr>"

text \<open>
  An awaited call has two halves: \<open>_sent\<close> is what happens when the call is made,
  \<open>_answer\<close> what happens when its promise settles. Where nothing else runs in
  between, the call is the two halves one after the other.
\<close>

definition findUnique_sent :: "string \<Rightarrow> select \<Rightarrow> strategy \<Rightarrow> strategy" where
  "findUnique_sent tenantId sel st = emit (Issued (FindUnique tenantId sel)) st"

definition findUnique_answer :: "string \<Rightarrow> select \<Rightarrow> strategy \<Rightarrow> error + tenant_record option" where
  "findUnique_answer tenantId sel st =
     (if fails (backend st) (FindUnique tenantId sel)
      then Inl (RequestFailed (FindUnique tenantId sel))
      else Inr (tenants (backend st) tenantId))"

definition findUnique :: "string \<Rightarrow> select \<Rightarrow> strategy \<Rightarrow> (error + tenant_record option) \<times> strategy" where
  "findUnique tenantId sel st =
     (let st1 = findUnique_sent tenantId sel st in (findUnique_answer tenantId sel st1, st1))"

definition set_tenants :: "(string \<rightharpoonup> tenant_record) \<Rightarrow> strategy \<Rightarrow> strategy" where
  "set_tenants ts st = st\<lparr>backend := (backend st)\<lparr>tenants := ts\<rparr>\<rparr>"

definition set_databases :: "string list \<Rightarrow> strategy \<Rightarrow> strategy" where
  "set_databases ds st = st\<lparr>backend := (backend st)\<lparr>databases := ds\<rparr>\<rparr>"

definition set_sessions :: "string list \<Rightarrow> strategy \<Rightarrow> strategy" where
  "set_sessions ss st = st\<lparr>backend := (backend st)\<lparr>sessions := ss\<rparr>\<rparr>"

text \<open>
  \<open>tenant.update({where: {id}, data: {config}})\<close> replaces the whole \<open>config\<close>
  column of the row and rejects when no row has the id.
\<close>

definition tenant_update :: "string \<Rightarrow> json_object \<Rightarrow> strategy \<Rightarrow> (error + unit) \<times> strategy" where
  "tenant_update tenantId cfg st =
     (let rq = UpdateConfig tenantId cfg; st1 = emit (Issued rq) st
      in if fails (backend st) rq then (Inl (RequestFailed rq), st1)
         else (case tenants (backend st) tenantId of
                 None \<Rightarrow> (Inl (RequestFailed rq), st1)
               | Some t \<Rightarrow>
                   (Inr (), set_tenants ((tenants (backend st))(tenantId \<mapsto> t\<lparr>tr_config := Some cfg\<rparr>)) st1)))"

text \<open>
  \<open>masterClient.$executeRawUnsafe\<close> on the three statements the class sends. Creating
  a database that exists is an error of the server. The second statement calls
  \<open>pg_terminate_backend\<close> on every other session of the database. \<open>DROP DATABASE IF
  EXISTS\<close> is refused while the database has sessions, and is no error for a database
  that does not exist.
\<close>

definition executeRawUnsafe :: "sql \<Rightarrow> strategy \<Rightarrow> (error + unit) \<times> strategy" where
  "executeRawUnsafe q st =
     (let rq = ExecuteRaw q; st1 = emit (Issued rq) st
      in if fails (backend st) rq then (Inl (RequestFailed rq), st1)
         else (case q of
                 CreateDatabase n \<Rightarrow>
                   if n \<in> set (databases (backend st)) then (Inl (RequestFailed rq), st1)
                   else (Inr (), set_databases (databases (backend st) @ [n]) st1)
               | TerminateBackends n \<Rightarrow>
                   (Inr (), set_sessions (removeAll n (sessions (backend st))) st1)
               | DropDatabaseIfExists n \<Rightarrow>
                   if n \<in> set (databases (backend st)) \<and> n \<in> set (sessions (backend st))
                   then (Inl (RequestFailed rq), st1)
                   else (Inr (), set_databases (removeAll n (databases (backend st))) st1)))"

definition newPrismaClient :: "string \<Rightarrow> strategy \<Rightarrow> nat \<times> strategy" where
  "newPrismaClient url st =
     (next_client st,
      st\<lparr>next_client := Suc (next_client st),
         status := (status st)(next_client st := Created),
         datasource := (datasource st)(next_client st := url)\<rparr>)"

definition connect_sent :: "nat \<Rightarrow> strategy \<Rightarrow> strategy" where
  "connect_sent c st = emit (Connect c (datasource st c)) st"

definition connect_answer :: "nat \<Rightarrow> strategy \<Rightarrow> bool \<times> strategy" where
  "connect_answer c st =
     (if dial_ok (backend st) (datasource st c)
      then (True, st\<lparr>status := (status st)(c := Connected)\<rparr>)
      else (False, st))"

definition connect :: "nat \<Rightarrow> strategy \<Rightarrow> bool \<times> strategy" where
  "connect c st = connect_answer c (connect_sent c st)"

text \<open>
  A \<open>$disconnect\<close> that rejects leaves the client as it was.
\<close>

definition disconnect_sent :: "nat \<Rightarrow> strategy \<Rightarrow> strategy" where
  "disconnect_sent c st = emit (Disconnect c) st"

definition disconnect_answer :: "nat \<Rightarrow> strategy \<Rightarrow> (error + unit) \<times> strategy" where
  "disconnect_answer c st =
     (if disconnect_ok (backend st) c
      then (Inr (), emit (Closed c) (st\<lparr>status := (status st)(c := Disconnected)\<rparr>))
      else (Inl (DisconnectFailed c), st))"

definition disconnect :: "nat \<Rightarrow> strategy \<Rightarrow> (error + unit) \<times> strategy" where
  "disconnect c st = disconnect_answer c (disconnect_sent c st)"

definition pool_set :: "string \<Rightarrow> nat \<Rightarrow> strategy \<Rightarrow> strategy" where
  "pool_set k c st = emit (PoolSet k c) (st\<lparr>prismaClients := AList.update k c (prismaClients st)\<rparr>)"

definition pool_delete :: "string \<Rightarrow> strategy \<Rightarrow> strategy" where
  "pool_delete k st = emit (PoolDelete k) (st\<lparr>prismaClients := AList.delete k (prismaClients st)\<rparr>)"

definition pool_clear :: "strategy \<Rightarrow> strategy" where
  "pool_clear st = emit PoolClear (st\<lparr>prismaClients := []\<rparr>)"

definition cache_set :: "string \<Rightarrow> TenantContext \<Rightarrow> strategy \<Rightarrow> strategy" where
  "cache_set k v st = emit (CacheSet k) (st\<lparr>tenantCache := AList.update k v (tenantCache st)\<rparr>)"

definition cache_delete :: "string \<Rightarrow> strategy \<Rightarrow> strategy" where
  "cache_delete k st = emit (CacheDelete k) (st\<lparr>tenantCache := AList.delete k (tenantCache st)\<rparr>)"

definition cache_clear :: "strategy \<Rightarrow> strategy" where
  "cache_clear st = emit CacheClear (st\<lparr>tenantCache := []\<rparr>)"

text \<open>
  \<open>setTimeout(() => this.tenantCache.delete(tenantId), delay)\<close>: the callback is
  identified by its tenant id and is due at \<open>now + delay\<close>; Node replaces a delay
  below 1 or above \<open>2^31 - 1\<close> by 1. The handle that \<open>setTimeout\<close> returns is
  dropped by the caller, so the state keeps the pending callbacks only.
\<close>

definition setTimeout :: "string \<Rightarrow> int \<Rightarrow> strategy \<Rightarrow> strategy" where
  "setTimeout tenantId delay st =
     (let d = (if delay < 1 \<or> 2147483647 < delay then 1 else delay);
          due = now st + nat d
      in emit (TimerSet due tenantId) (st\<lparr>timers := timers st @ [(due, tenantId)]\<rparr>))"

text \<open>
  Time passes between calls: \<open>advance t\<close> moves the clock to \<open>t\<close> and runs the
  callbacks that are due by then, earliest first.
\<close>

definition advance :: "nat \<Rightarrow> strategy \<Rightarrow> strategy" where
  "advance t st =
     (let due = sort_key fst (filter (\<lambda>(d, k). d \<le> t) (timers st));
          st1 = st\<lparr>now := max t (now st), timers := filter (\<lambda>(d, k). \<not> d \<le> t) (timers st)\<rparr>
      in fold (\<lambda>(d, k). cache_delete k) due st1)"

subsection \<open>Construction\<close>

definition new_strategy :: "SeparateDatabaseConfig \<Rightarrow> backend \<Rightarrow> strategy" where
  "new_strategy config be =
     \<lparr>masterDatabaseUrl = cfg_masterDatabaseUrl config,
      databaseUrlTemplate =
        (case cfg_databaseUrlTemplate config of
           None \<Rightarrow> default_template (cfg_masterDatabaseUrl config)
         | Some t \<Rightarrow> if t = [] then default_template (cfg_masterDatabaseUrl config) else t),
      maxConnections =
        (case cfg_maxConnections config of None \<Rightarrow> 10 | Some n \<Rightarrow> if n = 0 then 10 else n),
      cacheTtl =
        (case cfg_cacheTtl config of None \<Rightarrow> 5 * 60 * 1000 | Some n \<Rightarrow> if n = 0 then 5 * 60 * 1000 else n),
      tenantCache = [],
      prismaClients = [],
      masterClient = 0,
      next_client = 1,
      status = (\<lambda>c. Created),
      datasource = (\<lambda>c. [])(0 := cfg_masterDatabaseUrl config),
      now = 0,
      timers = [],
      backend = be,
      trace = []\<rparr>"


subsection \<open>Tenant validation and context\<close>

definition validateTenant_answer :: "string \<Rightarrow> strategy \<Rightarrow> bool" where
  "validateTenant_answer tenantId st =
     (case findUnique_answer tenantId SelectIdActive st of
        Inl e \<Rightarrow> False
      | Inr None \<Rightarrow> False
      | Inr (Some tenant) \<Rightarrow> tr_isActive tenant)"

definition validateTenant :: "string \<Rightarrow> strategy \<Rightarrow> bool \<times> strategy" where
  "validateTenant tenantId st =
     (let st1 = findUnique_sent tenantId SelectIdActive st
      in (validateTenant_answer tenantId st1, st1))"

definition getDatabaseUrlForTenant :: "strategy \<Rightarrow> string \<Rightarrow> string" where
  "getDatabaseUrlForTenant st tenantId = js_replace (databaseUrlTemplate st) ''{tenantId}'' tenantId"

definition config_databaseUrl :: "tenant_record \<Rightarrow> string" where
  "config_databaseUrl tenant =
     (case tr_config tenant of
        None \<Rightarrow> []
      | Some cfg \<Rightarrow> (case map_of cfg ''databaseUrl'' of None \<Rightarrow> [] | Some u \<Rightarrow> u))"

text \<open>
  The part of \<open>getTenantContext\<close> after a cache miss: \<open>fetchTenantContext_answer\<close> is
  what it does with the row once \<open>findUnique\<close> has settled.
\<close>

definition fetchTenantContext_answer :: "string \<Rightarrow> strategy \<Rightarrow> TenantContext option \<times> strategy" where
  "fetchTenantContext_answer tenantId st =
     (case findUnique_answer tenantId SelectAll st of
        Inl e \<Rightarrow> (None, st)
      | Inr None \<Rightarrow> (None, st)
      | Inr (Some tenant) \<Rightarrow>
          if \<not> tr_isActive tenant then (None, st)
          else
            (let databaseUrl =
                   (if config_databaseUrl tenant = [] then getDatabaseUrlForTenant st tenantId
                    else config_databaseUrl tenant);
                 context = \<lparr>ctx_id = tenantId, ctx_name = tr_name tenant,
                            ctx_config = (case tr_config tenant of None \<Rightarrow> [] | Some cfg \<Rightarrow> cfg),
                            ctx_database = databaseUrl\<rparr>;
                 st2 = cache_set tenantId context st;
                 st3 = setTimeout tenantId (cacheTtl st2) st2
             in (Some context, st3)))"

definition fetchTenantContext :: "string \<Rightarrow> strategy \<Rightarrow> TenantContext option \<times> strategy" where
  "fetchTenantContext tenantId st =
     fetchTenantContext_answer tenantId (findUnique_sent tenantId SelectAll st)"

definition getTenantContext :: "string \<Rightarrow> strategy \<Rightarrow> TenantContext option \<times> strategy" where
  "getTenantContext tenantId st =
     (case map_of (tenantCache st) tenantId of
        Some cached \<Rightarrow> (Some cached, st)
      | None \<Rightarrow> fetchTenantContext tenantId st)"

definition clearCache :: "string option \<Rightarrow> strategy \<Rightarrow> strategy" where
  "clearCache tenantId st =
     (case tenantId of
        None \<Rightarrow> cache_clear st
      | Some t \<Rightarrow> if t = [] then cache_clear st else cache_delete t st)"

subsection \<open>The client pool\<close>

text \<open>
  \<open>evict_target\<close> is what \<open>evictOldestClient\<close> decides before it calls
  \<open>$disconnect\<close>: the first key of the map and its client, unless the key is falsy.
  A \<open>$disconnect\<close> that rejects ends the method before the \<open>delete\<close>.
\<close>

definition evict_target :: "strategy \<Rightarrow> (string \<times> nat) option" where
  "evict_target st =
     (case map fst (prismaClients st) of
        [] \<Rightarrow> None
      | firstKey # ks \<Rightarrow>
          if firstKey = [] then None
          else (case map_of (prismaClients st) firstKey of
                  None \<Rightarrow> None
                | Some client \<Rightarrow> Some (firstKey, client)))"

definition evictOldestClient :: "strategy \<Rightarrow> (error + unit) \<times> strategy" where
  "evictOldestClient st =
     (case evict_target st of
        None \<Rightarrow> (Inr (), st)
      | Some (firstKey, client) \<Rightarrow>
          (case disconnect client st of
             (Inl e, st1) \<Rightarrow> (Inl e, st1)
           | (Inr u, st1) \<Rightarrow> (Inr (), pool_delete firstKey st1)))"

definition over_limit :: "strategy \<Rightarrow> bool" where
  "over_limit st = (maxConnections st < int (length (prismaClients st)))"

text \<open>
  The end of \<open>getPrismaClient\<close>, from \<open>this.prismaClients.set\<close> on: the new client
  is put into the map, and then the oldest is evicted if the map is over the limit.
\<close>

definition admit_client :: "string \<Rightarrow> nat \<Rightarrow> strategy \<Rightarrow> (error + nat) \<times> strategy" where
  "admit_client tenantId client st =
     (let st5 = pool_set tenantId client st
      in if over_limit st5
         then (case evictOldestClient st5 of
                 (Inl e, st6) \<Rightarrow> (Inl e, st6)
               | (Inr u, st6) \<Rightarrow> (Inr client, st6))
         else (Inr client, st5))"

definition getPrismaClient :: "string \<Rightarrow> strategy \<Rightarrow> (error + nat) \<times> strategy" where
  "getPrismaClient tenantId st =
     (case map_of (prismaClients st) tenantId of
        Some client \<Rightarrow> (Inr client, st)
      | None \<Rightarrow>
          (case validateTenant tenantId st of
             (isValid, st1) \<Rightarrow>
               if \<not> isValid then (Inl (InvalidTenant tenantId), st1)
               else
                 (case getTenantContext tenantId st1 of
                    (None, st2) \<Rightarrow> (Inl (NoDatabaseConfigured tenantId), st2)
                  | (Some context, st2) \<Rightarrow>
                      if ctx_database context = [] then (Inl (NoDatabaseConfigured tenantId), st2)
                      else
                        (case newPrismaClient (ctx_database context) st2 of
                           (client, st3) \<Rightarrow>
                             (case connect client st3 of
                                (connected, st4) \<Rightarrow>
                                  if \<not> connected then (Inl (DatabaseConnectionFailed tenantId), st4)
                                  else admit_client tenantId client st4)))))"

definition getActiveTenants :: "strategy \<Rightarrow> string list" where
  "getActiveTenants st = map fst (prismaClients st)"

definition disconnectTenant :: "string \<Rightarrow> strategy \<Rightarrow> (error + unit) \<times> strategy" where
  "disconnectTenant tenantId st =
     (case map_of (prismaClients st) tenantId of
        None \<Rightarrow> (Inr (), st)
      | Some client \<Rightarrow>
          (case disconnect client st of
             (Inl e, st1) \<Rightarrow> (Inl e, st1)
           | (Inr u, st1) \<Rightarrow> (Inr (), pool_delete tenantId st1)))"

text \<open>
  \<open>disconnectAll\<close> calls \<open>$disconnect\<close> on every pooled client before it awaits any of
  them. \<open>Promise_all\<close> is the \<open>await Promise.all(...)\<close> of these calls: the promises
  settle in the order of the pool, and the first one that rejects rejects the whole; the
  calls that have not settled by then are not followed any further. Only when all have
  resolved is the map cleared and the master client disconnected.
\<close>

fun Promise_all :: "nat list \<Rightarrow> strategy \<Rightarrow> (error + unit) \<times> strategy" where
  "Promise_all [] st = (Inr (), st)"
| "Promise_all (c # cs) st =
     (case disconnect_answer c st of
        (Inl e, st1) \<Rightarrow> (Inl e, st1)
      | (Inr u, st1) \<Rightarrow> Promise_all cs st1)"

definition disconnectAll :: "strategy \<Rightarrow> (error + unit) \<times> strategy" where
  "disconnectAll st =
     (let clients = map snd (prismaClients st);
          st1 = fold disconnect_sent clients st
      in case Promise_all clients st1 of
           (Inl e, st2) \<Rightarrow> (Inl e, st2)
         | (Inr u, st2) \<Rightarrow>
             (let st3 = pool_clear st2 in disconnect (masterClient st3) st3))"

subsection \<open>Provisioning\<close>

text \<open>
  Each provisioning method is a \<open>try\<close> block whose \<open>catch\<close> logs the error and
  returns \<open>false\<close>. The block is the \<open>_body\<close> function; the method turns its
  outcome into the boolean.
\<close>

definition createTenantDatabase_body :: "string \<Rightarrow> strategy \<Rightarrow> (error + unit) \<times> strategy" where
  "createTenantDatabase_body tenantId st =
     (let databaseName = ''tenant_'' @ tenantId
      in case executeRawUnsafe (CreateDatabase databaseName) st of
           (Inl e, st1) \<Rightarrow> (Inl e, st1)
         | (Inr u, st1) \<Rightarrow>
             (let databaseUrl = getDatabaseUrlForTenant st1 tenantId
              in case newPrismaClient databaseUrl st1 of
                   (newClient, st2) \<Rightarrow>
                     (case disconnect newClient st2 of
                        (Inl e, st3) \<Rightarrow> (Inl e, st3)
                      | (Inr u, st3) \<Rightarrow>
                          tenant_update tenantId [(''databaseUrl'', databaseUrl)] st3)))"

definition createTenantDatabase :: "string \<Rightarrow> strategy \<Rightarrow> (error + bool) \<times> strategy" where
  "createTenantDatabase tenantId st =
     (case createTenantDatabase_body tenantId st of
        (Inr u, st1) \<Rightarrow> (Inr True, st1)
      | (Inl e, st1) \<Rightarrow> (Inr False, st1))"

definition dropTenantDatabase_body :: "string \<Rightarrow> strategy \<Rightarrow> (error + unit) \<times> strategy" where
  "dropTenantDatabase_body tenantId st =
     (let databaseName = ''tenant_'' @ tenantId
      in case (case map_of (prismaClients st) tenantId of
                 None \<Rightarrow> (Inr (), st)
               | Some client \<Rightarrow>
                   (case disconnect client st of
                      (Inl e, st0) \<Rightarrow> (Inl e, st0)
                    | (Inr u, st0) \<Rightarrow> (Inr (), pool_delete tenantId st0))) of
           (Inl e, st1) \<Rightarrow> (Inl e, st1)
         | (Inr u, st1) \<Rightarrow>
             (case executeRawUnsafe (TerminateBackends databaseName) st1 of
                (Inl e, st2) \<Rightarrow> (Inl e, st2)
              | (Inr u, st2) \<Rightarrow>
                  (case executeRawUnsafe (DropDatabaseIfExists databaseName) st2 of
                     (Inl e, st3) \<Rightarrow> (Inl e, st3)
                   | (Inr u, st3) \<Rightarrow> (Inr (), cache_delete tenantId st3))))"

definition dropTenantDatabase :: "string \<Rightarrow> strategy \<Rightarrow> (error + bool) \<times> strategy" where
  "dropTenantDatabase tenantId st =
     (case dropTenantDatabase_body tenantId st of
        (Inr u, st1) \<Rightarrow> (Inr True, st1)
      | (Inl e, st1) \<Rightarrow> (Inr False, st1))"

text \<open>
  The two remaining methods are placeholders in the source: the \<open>try\<close> block writes a
  line to the console and returns \<open>true\<close>.
\<close>

definition backupTenantDatabase :: "string \<Rightarrow> string \<Rightarrow> strategy \<Rightarrow> (error + bool) \<times> strategy" where
  "backupTenantDatabase tenantId backupPath st = (Inr True, st)"

definition restoreTenantDatabase :: "string \<Rightarrow> string \<Rightarrow> strategy \<Rightarrow> (error + bool) \<times> strategy" where
  "restoreTenantDatabase tenantId backupPath st = (Inr True, st)"

subsection \<open>Interleaving of \<open>getPrismaClient\<close> calls\<close>

text \<open>
  JavaScript runs one call until it reaches an \<open>await\<close>; there another call may run.
  A call of \<open>getPrismaClient\<close> is a \<open>task\<close> that remembers at which \<open>await\<close> it is
  suspended and the local variables it needs afterwards; \<open>step\<close> runs it from there
  to its next \<open>await\<close> or to its end. A step ends with the call it is about to await
  (the \<open>_sent\<close> half), and the next step begins with what the call has brought (the
  \<open>_answer\<close> half).
\<close>

datatype task =
    Start string
  | AwaitValidate string
  | AwaitContext string "TenantContext option"
  | AwaitConnect string nat
  | AwaitEvict string nat "string \<times> nat"
  | Done "error + nat"

fun step :: "task \<Rightarrow> strategy \<Rightarrow> task \<times> strategy" where
  "step (Start tenantId) st =
     (case map_of (prismaClients st) tenantId of
        Some client \<Rightarrow> (Done (Inr client), st)
      | None \<Rightarrow> (AwaitValidate tenantId, findUnique_sent tenantId SelectIdActive st))"
| "step (AwaitValidate tenantId) st =
     (if \<not> validateTenant_answer tenantId st then (Done (Inl (InvalidTenant tenantId)), st)
      else (case map_of (tenantCache st) tenantId of
              Some cached \<Rightarrow> (AwaitContext tenantId (Some cached), st)
            | None \<Rightarrow> (AwaitContext tenantId None, findUnique_sent tenantId SelectAll st)))"
| "step (AwaitContext tenantId cached) st =
     (case (case cached of
              Some c \<Rightarrow> (Some c, st)
            | None \<Rightarrow> fetchTenantContext_answer tenantId st) of
        (None, st2) \<Rightarrow> (Done (Inl (NoDatabaseConfigured tenantId)), st2)
      | (Some context, st2) \<Rightarrow>
          if ctx_database context = [] then (Done (Inl (NoDatabaseConfigured tenantId)), st2)
          else (case newPrismaClient (ctx_database context) st2 of
                  (client, st3) \<Rightarrow> (AwaitConnect tenantId client, connect_sent client st3)))"
| "step (AwaitConnect tenantId client) st =
     (case connect_answer client st of
        (connected, st4) \<Rightarrow>
          if \<not> connected then (Done (Inl (DatabaseConnectionFailed tenantId)), st4)
          else
            (let st5 = pool_set tenantId client st4
             in if over_limit st5
                then (case evict_target st5 of
                        None \<Rightarrow> (Done (Inr client), st5)
                      | Some (firstKey, old) \<Rightarrow>
                          (AwaitEvict tenantId client (firstKey, old), disconnect_sent old st5))
                else (Done (Inr client), st5)))"
| "step (AwaitEvict tenantId client t) st =
     (case disconnect_answer (snd t) st of
        (Inl e, st6) \<Rightarrow> (Done (Inl e), st6)
      | (Inr u, st6) \<Rightarrow> (Done (Inr client), pool_delete (fst t) st6))"
| "step (Done r) st = (Done r, st)"

fun steps :: "nat \<Rightarrow> task \<Rightarrow> strategy \<Rightarrow> task \<times> strategy" where
  "steps 0 t st = (t, st)"
| "steps (Suc n) t st = (case step t st of (t1, st1) \<Rightarrow> steps n t1 st1)"

text \<open>
  A schedule names, turn by turn, the task that runs next.
\<close>

fun run_schedule :: "nat list \<Rightarrow> task list \<Rightarrow> strategy \<Rightarrow> task list \<times> strategy" where
  "run_schedule [] ts st = (ts, st)"
| "run_schedule (i # sched) ts st =
     (if i < length ts
      then (case step (ts ! i) st of (t1, st1) \<Rightarrow> run_schedule sched (ts[i := t1]) st1)
      else run_schedule sched ts st)"

definition dials :: "event list \<Rightarrow> (nat \<times> string) list" where
  "dials evs = concat (map (\<lambda>e. case e of Connect c u \<Rightarrow> [(c, u)] | _ \<Rightarrow> []) evs)"

subsection \<open>Sequences of calls and sample deployments\<close>

fun call_all :: "string list \<Rightarrow> strategy \<Rightarrow> (error + nat) list \<times> strategy" where
  "call_all [] st = ([], st)"
| "call_all (t # ts) st =
     (case getPrismaClient t st of
        (r, st1) \<Rightarrow> (case call_all ts st1 of (rs, st2) \<Rightarrow> (r # rs, st2)))"

text \<open>
  The order of effects that the specification requires of \<open>dropStorage\<close>: close the
  pooled connection if there is one, terminate the other sessions, drop the storage unit,
  invalidate the cached context.
\<close>

definition spec_drop_order :: "string \<Rightarrow> strategy \<Rightarrow> event list" where
  "spec_drop_order tenantId st =
     (case map_of (prismaClients st) tenantId of
        None \<Rightarrow> []
      | Some client \<Rightarrow> [Disconnect client, Closed client, PoolDelete tenantId]) @
     [Issued (ExecuteRaw (TerminateBackends (''tenant_'' @ tenantId))),
      Issued (ExecuteRaw (DropDatabaseIfExists (''tenant_'' @ tenantId))),
      CacheDelete tenantId]"

text \<open>
  A deployment for the concrete runs below: tenant \<open>ghost\<close> is not in the directory,
  \<open>idle\<close> is inactive, \<open>gold\<close> has a configuration of its own, every other tenant is
  active without configuration; the databases of the tenants \<open>old\<close> and \<open>a\<close> exist
  already and that of \<open>a\<close> has a session open, the server refuses to drop the database
  of \<open>locked\<close>, and the database of \<open>down\<close> accepts no connection. In the second
  deployment client 1 cannot be disconnected.
\<close>

definition demo_backend :: backend where
  "demo_backend =
     \<lparr>tenants = (\<lambda>k. if k = ''ghost'' then None
                     else Some \<lparr>tr_name = k, tr_isActive = (k \<noteq> ''idle''),
                                tr_config = (if k = ''gold'' then Some [(''plan'', ''gold'')] else None)\<rparr>),
      databases = [''tenant_old'', ''tenant_a''],
      sessions = [''tenant_a''],
      fails = (\<lambda>r. r = ExecuteRaw (DropDatabaseIfExists ''tenant_locked'')),
      dial_ok = (\<lambda>u. u \<noteq> ''pg://h/tenant_down''),
      disconnect_ok = (\<lambda>c. True)\<rparr>"

definition demo_config :: "int \<Rightarrow> SeparateDatabaseConfig" where
  "demo_config n =
     \<lparr>cfg_masterDatabaseUrl = ''pg://h/master'', cfg_databaseUrlTemplate = None,
      cfg_maxConnections = Some n, cfg_cacheTtl = Some 100\<rparr>"

definition demo :: "int \<Rightarrow> strategy" where
  "demo n = new_strategy (demo_config n) demo_backend"

definition stuck :: "int \<Rightarrow> strategy" where
  "stuck n = new_strategy (demo_config n) (demo_backend\<lparr>disconnect_ok := (\<lambda>c. c \<noteq> 1)\<rparr>)"

section \<open>Properties\<close>

subsection \<open>Frame and characterisation lemmas\<close>

lemmas prims = emit_def findUnique_def findUnique_sent_def findUnique_answer_def set_tenants_def
  set_databases_def set_sessions_def tenant_update_def executeRawUnsafe_def newPrismaClient_def
  connect_def connect_sent_def connect_answer_def disconnect_def disconnect_sent_def
  disconnect_answer_def pool_set_def pool_delete_def pool_clear_def cache_set_def cache_delete_def
  cache_clear_def setTimeout_def

lemmas demo_defs = demo_def stuck_def demo_config_def demo_backend_def new_strategy_def
  default_template_def

lemmas run_defs = getPrismaClient_def validateTenant_def validateTenant_answer_def
  getTenantContext_def fetchTenantContext_def fetchTenantContext_answer_def admit_client_def
  over_limit_def evictOldestClient_def evict_target_def config_databaseUrl_def getDatabaseUrlForTenant_def
  js_replace_def Let_def

lemma emit_fields [simp]:
  "prismaClients (emit e st) = prismaClients st"
  "status (emit e st) = status st"
  "next_client (emit e st) = next_client st"
  "maxConnections (emit e st) = maxConnections st"
  "backend (emit e st) = backend st"
  "datasource (emit e st) = datasource st"
  "tenantCache (emit e st) = tenantCache st"
  "timers (emit e st) = timers st"
  "now (emit e st) = now st"
  "cacheTtl (emit e st) = cacheTtl st"
  "databaseUrlTemplate (emit e st) = databaseUrlTemplate st"
  "masterClient (emit e st) = masterClient st"
  "trace (emit e st) = trace st @ [e]"
  by (simp_all add: emit_def)

lemma validateTenant_eq:
  "validateTenant tid st =
     (\<not> fails (backend st) (FindUnique tid SelectIdActive) \<and>
        (case tenants (backend st) tid of None \<Rightarrow> False | Some t \<Rightarrow> tr_isActive t),
      emit (Issued (FindUnique tid SelectIdActive)) st)"
  by (simp add: validateTenant_def validateTenant_answer_def findUnique_sent_def
        findUnique_answer_def Let_def split: option.splits)

lemma fetchTenantContext_frame [simp]:
  "prismaClients (snd (fetchTenantContext tid st)) = prismaClients st"
  "status (snd (fetchTenantContext tid st)) = status st"
  "next_client (snd (fetchTenantContext tid st)) = next_client st"
  "maxConnections (snd (fetchTenantContext tid st)) = maxConnections st"
  "backend (snd (fetchTenantContext tid st)) = backend st"
  "datasource (snd (fetchTenantContext tid st)) = datasource st"
  by (simp_all add: fetchTenantContext_def fetchTenantContext_answer_def findUnique_sent_def
        findUnique_answer_def cache_set_def setTimeout_def Let_def split: option.splits)

lemma getTenantContext_frame [simp]:
  "prismaClients (snd (getTenantContext tid st)) = prismaClients st"
  "status (snd (getTenantContext tid st)) = status st"
  "next_client (snd (getTenantContext tid st)) = next_client st"
  "maxConnections (snd (getTenantContext tid st)) = maxConnections st"
  "backend (snd (getTenantContext tid st)) = backend st"
  "datasource (snd (getTenantContext tid st)) = datasource st"
  by (simp_all add: getTenantContext_def split: option.splits)

lemma fetchTenantContext_trace:
  "\<exists>evs. trace (snd (fetchTenantContext tid st)) = trace st @ evs"
  by (simp add: fetchTenantContext_def fetchTenantContext_answer_def findUnique_sent_def
        findUnique_answer_def cache_set_def setTimeout_def Let_def split: option.splits)

lemma getTenantContext_trace:
  "\<exists>evs. trace (snd (getTenantContext tid st)) = trace st @ evs"
  using fetchTenantContext_trace [of tid st]
  by (simp add: getTenantContext_def split: option.splits)

lemma update_absent: "map_of al k = None \<Longrightarrow> AList.update k v al = al @ [(k, v)]"
  by (induction al) (auto split: if_splits)

lemma getPrismaClient_hit:
  "map_of (prismaClients st) tid = Some c \<Longrightarrow> getPrismaClient tid st = (Inr c, st)"
  by (simp add: getPrismaClient_def)

lemma evictOldestClient_eq:
  "prismaClients st = (k, c) # r \<Longrightarrow> k \<noteq> [] \<Longrightarrow>
     evictOldestClient st =
       (if disconnect_ok (backend st) c
        then (Inr (), pool_delete k (emit (Closed c) (emit (Disconnect c) st\<lparr>status := (status st)(c := Disconnected)\<rparr>)))
        else (Inl (DisconnectFailed c), emit (Disconnect c) st))"
  by (simp add: evictOldestClient_def evict_target_def disconnect_def disconnect_sent_def
        disconnect_answer_def)

lemma evictOldestClient_skip:
  "prismaClients st = (k, c) # r \<Longrightarrow> k = [] \<Longrightarrow> evictOldestClient st = (Inr (), st)"
  by (simp add: evictOldestClient_def evict_target_def)

lemma dials_append [simp]: "dials (xs @ ys) = dials xs @ dials ys"
  by (simp add: dials_def)

lemma dials_simps [simp]:
  "dials [] = []"
  "dials (Connect c u # es) = (c, u) # dials es"
  "dials (Issued rq # es) = dials es"
  "dials (Disconnect c # es) = dials es"
  "dials (Closed c # es) = dials es"
  "dials (PoolSet k c # es) = dials es"
  "dials (PoolDelete k # es) = dials es"
  "dials (PoolClear # es) = dials es"
  "dials (CacheSet k # es) = dials es"
  "dials (CacheDelete k # es) = dials es"
  "dials (CacheClear # es) = dials es"
  "dials (TimerSet n k # es) = dials es"
  by (simp_all add: dials_def)

lemma fetchTenantContext_dials [simp]:
  "dials (trace (snd (fetchTenantContext tid st))) = dials (trace st)"
  by (simp add: fetchTenantContext_def fetchTenantContext_answer_def findUnique_sent_def
        findUnique_answer_def cache_set_def setTimeout_def Let_def split: option.splits)

lemma getTenantContext_dials [simp]:
  "dials (trace (snd (getTenantContext tid st))) = dials (trace st)"
  by (simp add: getTenantContext_def split: option.splits)

lemma getPrismaClient_connected:
  assumes miss: "map_of (prismaClients st) tid = None"
      and late: "fst (getPrismaClient tid st) \<notin>
                   {Inl (InvalidTenant tid), Inl (NoDatabaseConfigured tid), Inl (DatabaseConnectionFailed tid)}"
  shows "\<exists>st3. prismaClients st3 = prismaClients st \<and> maxConnections st3 = maxConnections st \<and>
           backend st3 = backend st \<and>
           next_client st3 = Suc (next_client st) \<and> status st3 = (status st)(next_client st := Connected) \<and>
           (\<exists>evs. trace st3 = trace st @ evs) \<and>
           (\<exists>u. dials (trace st3) = dials (trace st) @ [(next_client st, u)]) \<and>
           getPrismaClient tid st = admit_client tid (next_client st) st3"
proof -
  let ?st1 = "emit (Issued (FindUnique tid SelectIdActive)) st"
  let ?g = "getTenantContext tid ?st1"
  obtain evs where evs: "trace (snd ?g) = trace st @ evs"
    using getTenantContext_trace [of tid ?st1] by auto
  from miss late obtain ctx where ctx: "fst ?g = Some ctx"
    and st': "getPrismaClient tid st =
                admit_client tid (next_client st)
                  (snd (connect (next_client st) (snd (newPrismaClient (ctx_database ctx) (snd ?g)))))"
    and dial: "fst (connect (next_client st) (snd (newPrismaClient (ctx_database ctx) (snd ?g))))"
    by (auto simp: getPrismaClient_def validateTenant_eq case_prod_beta Let_def newPrismaClient_def
          split: option.splits if_splits)
  let ?st3 = "snd (connect (next_client st) (snd (newPrismaClient (ctx_database ctx) (snd ?g))))"
  have "prismaClients ?st3 = prismaClients st" "maxConnections ?st3 = maxConnections st"
       "backend ?st3 = backend st"
       "next_client ?st3 = Suc (next_client st)" "status ?st3 = (status st)(next_client st := Connected)"
       "\<exists>evs. trace ?st3 = trace st @ evs"
    using dial evs
    by (simp_all add: connect_def connect_sent_def connect_answer_def newPrismaClient_def Let_def
          split: if_splits)
  moreover have "\<exists>u. dials (trace ?st3) = dials (trace st) @ [(next_client st, u)]"
    using dial
    by (simp add: connect_def connect_sent_def connect_answer_def newPrismaClient_def Let_def
          split: if_splits)
  ultimately show ?thesis using st' by (intro exI [where x = "?st3"]) simp
qed


lemma evictOldestClient_frame [simp]:
  "backend (snd (evictOldestClient st)) = backend st"
  "maxConnections (snd (evictOldestClient st)) = maxConnections st"
  "next_client (snd (evictOldestClient st)) = next_client st"
  by (simp_all add: evictOldestClient_def evict_target_def disconnect_def disconnect_sent_def
        disconnect_answer_def pool_delete_def split: option.splits list.splits)

lemma admit_client_frame [simp]:
  "backend (snd (admit_client tid c st)) = backend st"
  "maxConnections (snd (admit_client tid c st)) = maxConnections st"
  "next_client (snd (admit_client tid c st)) = next_client st"
  by (simp_all add: admit_client_def Let_def pool_set_def case_prod_beta split: sum.splits)

lemma getPrismaClient_frame [simp]:
  "backend (snd (getPrismaClient tid st)) = backend st"
  "maxConnections (snd (getPrismaClient tid st)) = maxConnections st"
  by (simp_all add: getPrismaClient_def validateTenant_eq case_prod_beta newPrismaClient_def
        connect_def connect_sent_def connect_answer_def split: option.splits)

lemma admit_client_absent:
  assumes miss: "map_of (prismaClients st) tid = None"
  shows "\<exists>k ec r. prismaClients st @ [(tid, c)] = (k, ec) # r \<and>
     (if maxConnections st < int (length (prismaClients st)) + 1 \<and> k \<noteq> []
      then (if disconnect_ok (backend st) ec
            then fst (admit_client tid c st) = Inr c \<and>
                 prismaClients (snd (admit_client tid c st)) = AList.delete k ((k, ec) # r) \<and>
                 status (snd (admit_client tid c st)) = (status st)(ec := Disconnected) \<and>
                 trace (snd (admit_client tid c st)) =
                   trace st @ [PoolSet tid c, Disconnect ec, Closed ec, PoolDelete k]
            else fst (admit_client tid c st) = Inl (DisconnectFailed ec) \<and>
                 prismaClients (snd (admit_client tid c st)) = (k, ec) # r \<and>
                 status (snd (admit_client tid c st)) = status st \<and>
                 trace (snd (admit_client tid c st)) = trace st @ [PoolSet tid c, Disconnect ec])
      else fst (admit_client tid c st) = Inr c \<and>
           prismaClients (snd (admit_client tid c st)) = (k, ec) # r \<and>
           status (snd (admit_client tid c st)) = status st \<and>
           trace (snd (admit_client tid c st)) = trace st @ [PoolSet tid c])"
proof -
  let ?st5 = "pool_set tid c st"
  obtain k ec r where q: "prismaClients st @ [(tid, c)] = (k, ec) # r"
    by (cases "prismaClients st @ [(tid, c)]") auto
  have p5: "prismaClients ?st5 = (k, ec) # r"
    using q miss by (simp add: pool_set_def update_absent)
  have f5: "backend ?st5 = backend st" "status ?st5 = status st"
    "trace ?st5 = trace st @ [PoolSet tid c]"
    by (simp_all add: pool_set_def)
  have ol: "over_limit ?st5 \<longleftrightarrow> maxConnections st < int (length (prismaClients st)) + 1"
    using miss by (auto simp: over_limit_def pool_set_def update_absent)
  show ?thesis
  proof (cases "maxConnections st < int (length (prismaClients st)) + 1")
    case False
    with ol q p5 f5 show ?thesis by (simp add: admit_client_def Let_def)
  next
    case over: True
    show ?thesis
    proof (cases "k = []")
      case True
      with over ol q p5 f5 evictOldestClient_skip [OF p5] show ?thesis
        by (simp add: admit_client_def Let_def)
    next
      case False
      with over ol q p5 f5 evictOldestClient_eq [OF p5] show ?thesis
        by (simp add: admit_client_def Let_def pool_delete_def)
    qed
  qed
qed


lemma admit_client_result:
  "fst (admit_client tid c st) = Inr c \<or> (\<exists>ec. fst (admit_client tid c st) = Inl (DisconnectFailed ec))"
  by (auto simp: admit_client_def Let_def evictOldestClient_def evict_target_def disconnect_def
        disconnect_sent_def disconnect_answer_def split: option.splits list.splits if_splits)

lemma getPrismaClient_early:
  assumes run: "getPrismaClient tid st = (Inl e, st')"
      and early: "e \<in> {InvalidTenant tid, NoDatabaseConfigured tid, DatabaseConnectionFailed tid}"
  shows "prismaClients st' = prismaClients st \<and>
         (\<forall>c. c < next_client st \<longrightarrow> status st' c = status st c)"
proof -
  have no: "admit_client tid c s \<noteq> (Inl e, s')" for c s s'
  proof
    assume "admit_client tid c s = (Inl e, s')"
    then have "fst (admit_client tid c s) = Inl e" by simp
    with early admit_client_result [of tid c s] show False by auto
  qed
  show ?thesis
    using run no
    by (auto simp: getPrismaClient_def validateTenant_eq case_prod_beta newPrismaClient_def
          connect_def connect_sent_def connect_answer_def Let_def split: option.splits if_splits)
qed

lemma getPrismaClient_miss:
  assumes miss: "map_of (prismaClients st) tid = None"
      and ok: "getPrismaClient tid st = (Inr c, st')"
  shows "c = next_client st \<and> next_client st' = Suc c \<and>
         (\<exists>k ec r. prismaClients st @ [(tid, c)] = (k, ec) # r \<and>
            (if maxConnections st < int (length (prismaClients st)) + 1 \<and> k \<noteq> []
             then disconnect_ok (backend st) ec \<and>
                  prismaClients st' = AList.delete k ((k, ec) # r) \<and>
                  status st' = (status st)(c := Connected, ec := Disconnected) \<and>
                  (\<exists>pre. trace st' =
                     trace st @ pre @ [PoolSet tid c, Disconnect ec, Closed ec, PoolDelete k])
             else prismaClients st' = (k, ec) # r \<and> status st' = (status st)(c := Connected) \<and>
                  (\<exists>pre. trace st' = trace st @ pre @ [PoolSet tid c])))"
proof -
  have late: "fst (getPrismaClient tid st) \<notin>
                {Inl (InvalidTenant tid), Inl (NoDatabaseConfigured tid), Inl (DatabaseConnectionFailed tid)}"
    using ok by simp
  from getPrismaClient_connected [OF miss late] obtain st3 evs where
    p3: "prismaClients st3 = prismaClients st" and m3: "maxConnections st3 = maxConnections st" and
    b3: "backend st3 = backend st" and
    n3: "next_client st3 = Suc (next_client st)" and
    s3: "status st3 = (status st)(next_client st := Connected)" and
    t3: "trace st3 = trace st @ evs" and
    g: "getPrismaClient tid st = admit_client tid (next_client st) st3"
    by blast
  let ?a = "admit_client tid (next_client st) st3"
  have "?a = (Inr c, st')" by (simp add: g [symmetric] ok)
  then have fa: "fst ?a = Inr c" and sa: "snd ?a = st'" by simp_all
  have c: "c = next_client st" using admit_client_result [of tid "next_client st" st3] fa by auto
  have miss3: "map_of (prismaClients st3) tid = None" using miss p3 by simp
  from admit_client_absent [OF miss3, of "next_client st"] fa sa
  show ?thesis
    unfolding p3 m3 b3 s3 t3 c [symmetric]
    using n3 c admit_client_frame(3) [of tid "next_client st" st3] sa
    by (auto split: if_splits)
qed

lemma getPrismaClient_Inl:
  assumes run: "getPrismaClient tid st = (Inl e, st')"
  shows "(e \<in> {InvalidTenant tid, NoDatabaseConfigured tid, DatabaseConnectionFailed tid} \<and>
          prismaClients st' = prismaClients st \<and>
          (\<forall>c. c < next_client st \<longrightarrow> status st' c = status st c)) \<or>
         (\<exists>ec. e = DisconnectFailed ec \<and> \<not> disconnect_ok (backend st) ec \<and>
               map_of (prismaClients st) tid = None \<and>
               maxConnections st < int (length (prismaClients st)) + 1 \<and>
               prismaClients st' = prismaClients st @ [(tid, next_client st)] \<and>
               status st' = (status st)(next_client st := Connected))"
proof (cases "e \<in> {InvalidTenant tid, NoDatabaseConfigured tid, DatabaseConnectionFailed tid}")
  case True
  with getPrismaClient_early [OF run True] show ?thesis by simp
next
  case False
  have miss: "map_of (prismaClients st) tid = None"
    using run by (cases "map_of (prismaClients st) tid") (simp_all add: getPrismaClient_hit)
  have late: "fst (getPrismaClient tid st) \<notin>
                {Inl (InvalidTenant tid), Inl (NoDatabaseConfigured tid), Inl (DatabaseConnectionFailed tid)}"
    using run False by auto
  from getPrismaClient_connected [OF miss late] obtain st3 where
    p3: "prismaClients st3 = prismaClients st" and m3: "maxConnections st3 = maxConnections st" and
    b3: "backend st3 = backend st" and
    s3: "status st3 = (status st)(next_client st := Connected)" and
    g: "getPrismaClient tid st = admit_client tid (next_client st) st3"
    by blast
  let ?a = "admit_client tid (next_client st) st3"
  have "?a = (Inl e, st')" by (simp add: g [symmetric] run)
  then have fa: "fst ?a = Inl e" and sa: "snd ?a = st'" by simp_all
  have miss3: "map_of (prismaClients st3) tid = None" using miss p3 by simp
  from admit_client_absent [OF miss3, of "next_client st"] fa sa miss
  show ?thesis
    unfolding p3 m3 b3 s3
    by (auto split: if_splits)
qed

lemma demo_down_fails:
  "fst (getPrismaClient ''down'' (snd (getPrismaClient ''a'' (demo 2)))) = Inl (DatabaseConnectionFailed ''down'')"
  by (simp add: demo_defs run_defs prims)

subsection \<open>Failed calls and the pool\<close>

text \<open>
  Claim C9, as the code has it. A call of \<open>getPrismaClient\<close> fails in one of two ways.
  With one of the three errors the method throws itself (invalid tenant, no database
  configured, connection failed) it fails before the client is put into the map:
  \<open>prismaClients\<close> is the map before the call, and every client that existed before the
  call has the status it had. Otherwise the \<open>$disconnect\<close> of the eviction was
  rejected, after the client was put into the map: the map is the one before the call
  with the new entry at its end, and nothing has been evicted.
\<close>

theorem getPrismaClient_failure_and_pool:
  assumes "fst (getPrismaClient tid st) = Inl e"
  shows "(e \<in> {InvalidTenant tid, NoDatabaseConfigured tid, DatabaseConnectionFailed tid} \<and>
          prismaClients (snd (getPrismaClient tid st)) = prismaClients st \<and>
          (\<forall>c. c < next_client st \<longrightarrow> status (snd (getPrismaClient tid st)) c = status st c)) \<or>
         (\<exists>ec. e = DisconnectFailed ec \<and> \<not> disconnect_ok (backend st) ec \<and>
               map_of (prismaClients st) tid = None \<and>
               maxConnections st < int (length (prismaClients st)) + 1 \<and>
               prismaClients (snd (getPrismaClient tid st)) = prismaClients st @ [(tid, next_client st)] \<and>
               status (snd (getPrismaClient tid st)) = (status st)(next_client st := Connected))"
proof -
  from assms have "getPrismaClient tid st = (Inl e, snd (getPrismaClient tid st))"
    by (metis prod.collapse)
  from getPrismaClient_Inl [OF this] show ?thesis .
qed

theorem getPrismaClient_failure_and_pool_witness:
  "fst (getPrismaClient ''down'' (snd (getPrismaClient ''a'' (demo 2)))) =
     Inl (DatabaseConnectionFailed ''down'') \<and>
   prismaClients (snd (getPrismaClient ''down'' (snd (getPrismaClient ''a'' (demo 2))))) = [(''a'', 1)] \<and>
   status (snd (getPrismaClient ''down'' (snd (getPrismaClient ''a'' (demo 2))))) 1 = Connected \<and>
   fst (getPrismaClient ''b'' (snd (getPrismaClient ''a'' (stuck 1)))) = Inl (DisconnectFailed 1) \<and>
   prismaClients (snd (getPrismaClient ''b'' (snd (getPrismaClient ''a'' (stuck 1))))) =
     [(''a'', 1), (''b'', 2)]"
proof -
  let ?st = "snd (getPrismaClient ''a'' (demo 2))"
  let ?su = "snd (getPrismaClient ''a'' (stuck 1))"
  have h: "fst (getPrismaClient ''down'' ?st) = Inl (DatabaseConnectionFailed ''down'')"
    by (rule demo_down_fails)
  have p: "prismaClients ?st = [(''a'', 1)]" "next_client ?st = 2" "status ?st 1 = Connected"
    by (simp_all add: demo_defs run_defs prims)
  have g: "fst (getPrismaClient ''b'' ?su) = Inl (DisconnectFailed 1)"
    by (simp add: demo_defs run_defs prims)
  have q: "prismaClients ?su = [(''a'', 1)]" "next_client ?su = 2"
    by (simp_all add: demo_defs run_defs prims)
  from getPrismaClient_failure_and_pool [OF h] getPrismaClient_failure_and_pool [OF g] p q h g
  show ?thesis by simp
qed

text \<open>
  The claim as stated, for a failure of any kind, fails: with maximum 1, tenant \<open>a\<close>
  pooled and a client 1 that cannot be disconnected, the call for \<open>b\<close> fails and leaves
  both entries in the map.
\<close>

theorem failed_eviction_keeps_new_entry_counterexample:
  "prismaClients (snd (getPrismaClient ''a'' (stuck 1))) = [(''a'', 1)] \<and>
   fst (getPrismaClient ''b'' (snd (getPrismaClient ''a'' (stuck 1)))) = Inl (DisconnectFailed 1) \<and>
   prismaClients (snd (getPrismaClient ''b'' (snd (getPrismaClient ''a'' (stuck 1))))) =
     [(''a'', 1), (''b'', 2)]"
  by (simp add: demo_defs run_defs prims)

subsection \<open>Tenants that are missing or inactive\<close>

text \<open>
  Claim C2, as the code has it. The method returns a pooled client before it looks at the
  directory, so the rejection holds for tenants that are not in the pool: for a tenant id
  without a pool entry that is absent from the directory or inactive, \<open>getPrismaClient\<close>
  fails with the invalid-tenant error and leaves the pool as it was.
\<close>

theorem unpooled_invalid_tenant_rejected:
  assumes "map_of (prismaClients st) tid = None"
      and "tenants (backend st) tid = None \<or>
           (\<exists>t. tenants (backend st) tid = Some t \<and> \<not> tr_isActive t)"
  shows "fst (getPrismaClient tid st) = Inl (InvalidTenant tid) \<and>
         prismaClients (snd (getPrismaClient tid st)) = prismaClients st"
  using assms by (auto simp: getPrismaClient_def validateTenant_eq)

theorem unpooled_invalid_tenant_rejected_witness:
  "map_of (prismaClients (demo 2)) ''idle'' = None \<and>
   (\<exists>t. tenants (backend (demo 2)) ''idle'' = Some t \<and> \<not> tr_isActive t) \<and>
   fst (getPrismaClient ''idle'' (demo 2)) = Inl (InvalidTenant ''idle'') \<and>
   prismaClients (snd (getPrismaClient ''idle'' (demo 2))) = [] \<and>
   tenants (backend (demo 2)) ''ghost'' = None \<and>
   fst (getPrismaClient ''ghost'' (demo 2)) = Inl (InvalidTenant ''ghost'') \<and>
   prismaClients (snd (getPrismaClient ''ghost'' (demo 2))) = []"
proof -
  have p: "prismaClients (demo 2) = []"
    by (simp add: demo_defs)
  have h1: "map_of (prismaClients (demo 2)) ''idle'' = None"
    and g1: "map_of (prismaClients (demo 2)) ''ghost'' = None"
    by (simp_all add: p)
  have h2: "\<exists>t. tenants (backend (demo 2)) ''idle'' = Some t \<and> \<not> tr_isActive t"
    by (simp add: demo_defs)
  have g2: "tenants (backend (demo 2)) ''ghost'' = None"
    by (simp add: demo_defs)
  from unpooled_invalid_tenant_rejected [OF h1 disjI2, OF h2]
       unpooled_invalid_tenant_rejected [OF g1 disjI1, OF g2] h1 h2 g2 p
  show ?thesis by simp
qed

text \<open>
  The claim as stated fails for a pooled tenant: tenant \<open>a\<close> is connected, then the
  directory loses its row, and the next call for \<open>a\<close> still returns client 1.
\<close>

theorem pooled_tenant_not_revalidated_counterexample:
  "tenants (backend (set_tenants Map.empty (snd (getPrismaClient ''a'' (demo 2))))) ''a'' = None \<and>
   fst (getPrismaClient ''a'' (set_tenants Map.empty (snd (getPrismaClient ''a'' (demo 2))))) = Inr 1"
  by (simp add: demo_defs run_defs prims)

subsection \<open>The bound of the pool and its eviction order\<close>

lemma call_all_Cons:
  "call_all (t # ts) st = (rs, st') \<Longrightarrow>
     \<exists>r st1 rs1. getPrismaClient t st = (r, st1) \<and> call_all ts st1 = (rs1, st') \<and> rs = r # rs1"
  by (auto split: prod.splits)

lemma call_all_append:
  "call_all (ts @ us) st =
     (fst (call_all ts st) @ fst (call_all us (snd (call_all ts st))),
      snd (call_all us (snd (call_all ts st))))"
  by (induction ts arbitrary: st) (simp_all add: case_prod_beta)

lemma call_all_length: "length (fst (call_all ts st)) = length ts"
  by (induction ts arbitrary: st) (simp_all add: case_prod_beta)

lemma getPrismaClient_bound:
  assumes ne: "[] \<notin> fst ` set (prismaClients st)" and tid: "tid \<noteq> []"
      and le: "int (length (prismaClients st)) \<le> maxConnections st"
      and closes: "\<forall>c. disconnect_ok (backend st) c"
      and run: "getPrismaClient tid st = (r, st')"
  shows "int (length (prismaClients st')) \<le> maxConnections st \<and>
         [] \<notin> fst ` set (prismaClients st')"
proof (cases "map_of (prismaClients st) tid")
  case (Some c)
  with run ne le show ?thesis by (simp add: getPrismaClient_hit)
next
  case None
  show ?thesis
  proof (cases r)
    case (Inl e)
    with run getPrismaClient_Inl [of tid st e st'] closes ne le show ?thesis by auto
  next
    case (Inr c)
    with run have ok: "getPrismaClient tid st = (Inr c, st')" by simp
    from getPrismaClient_miss [OF None ok] obtain k ec r0 where
      q: "prismaClients st @ [(tid, c)] = (k, ec) # r0" and
      br: "if maxConnections st < int (length (prismaClients st)) + 1 \<and> k \<noteq> []
           then prismaClients st' = AList.delete k ((k, ec) # r0)
           else prismaClients st' = (k, ec) # r0"
      by (auto split: if_splits)
    have keys: "fst ` set ((k, ec) # r0) = insert tid (fst ` set (prismaClients st))"
      using q [symmetric] by simp
    have nokey: "[] \<notin> fst ` set ((k, ec) # r0)"
      unfolding keys using ne tid by simp
    then have k: "k \<noteq> []" and nor0: "[] \<notin> fst ` set r0" by auto
    have len: "length r0 = length (prismaClients st)"
      using arg_cong [OF q, of length] by simp
    show ?thesis
    proof (cases "maxConnections st < int (length (prismaClients st)) + 1")
      case True
      with br k have p: "prismaClients st' = AList.delete k r0" by simp
      have "length (AList.delete k r0) \<le> length r0" by (rule length_delete_le)
      moreover have "fst ` set (AList.delete k r0) \<subseteq> fst ` set r0" by (rule dom_delete_subset)
      then have "[] \<notin> fst ` set (AList.delete k r0)" using nor0 by blast
      ultimately show ?thesis using p le len by simp
    next
      case False
      with br have p: "prismaClients st' = (k, ec) # r0" by simp
      with False len nokey show ?thesis by simp
    qed
  qed
qed

lemma call_all_bound:
  "[] \<notin> fst ` set (prismaClients st) \<Longrightarrow> [] \<notin> set ts \<Longrightarrow>
   int (length (prismaClients st)) \<le> maxConnections st \<Longrightarrow>
   \<forall>c. disconnect_ok (backend st) c \<Longrightarrow>
   int (length (prismaClients (snd (call_all ts st)))) \<le> maxConnections st"
proof (induction ts arbitrary: st)
  case Nil
  then show ?case by simp
next
  case (Cons t ts)
  obtain r st1 where g: "getPrismaClient t st = (r, st1)" by (cases "getPrismaClient t st")
  from Cons.prems have "t \<noteq> []" by auto
  from getPrismaClient_bound [OF Cons.prems(1) this Cons.prems(3) Cons.prems(4) g]
  have b: "int (length (prismaClients st1)) \<le> maxConnections st"
    "[] \<notin> fst ` set (prismaClients st1)"
    by simp_all
  have f: "maxConnections st1 = maxConnections st" "backend st1 = backend st"
    using getPrismaClient_frame [of t st] g by simp_all
  from Cons.prems have "[] \<notin> set ts" by auto
  from Cons.IH [OF b(2) this] b(1) f Cons.prems(4) g show ?case
    by (simp add: case_prod_beta)
qed

lemma call_all_fill:
  "distinct (map fst (prismaClients st) @ ts) \<Longrightarrow>
   int (length (prismaClients st) + length ts) \<le> maxConnections st \<Longrightarrow>
   call_all ts st = (rs, st') \<Longrightarrow> \<forall>r\<in>set rs. \<not> isl r \<Longrightarrow>
   prismaClients st' = prismaClients st @ zip ts (map projr rs) \<and>
   maxConnections st' = maxConnections st \<and> (\<exists>evs. trace st' = trace st @ evs)"
proof (induction ts arbitrary: st rs)
  case Nil
  then show ?case by auto
next
  case (Cons t ts)
  from call_all_Cons [OF Cons.prems(3)] obtain r st1 rs1 where
    g: "getPrismaClient t st = (r, st1)" and rest: "call_all ts st1 = (rs1, st')" and rs: "rs = r # rs1"
    by blast
  from Cons.prems(4) rs obtain c where r: "r = Inr c" by (cases r) auto
  from Cons.prems(1) have miss: "map_of (prismaClients st) t = None"
    by (auto simp: map_of_eq_None_iff)
  from getPrismaClient_miss [OF miss g [unfolded r]] Cons.prems(2)
  have p1: "prismaClients st1 = prismaClients st @ [(t, c)]"
    and t1: "\<exists>pre. trace st1 = trace st @ pre"
    by (auto split: if_splits)
  have m1: "maxConnections st1 = maxConnections st"
    using getPrismaClient_frame(2) [of t st] g by simp
  have "distinct (map fst (prismaClients st1) @ ts)"
    using Cons.prems(1) p1 by auto
  moreover have "int (length (prismaClients st1) + length ts) \<le> maxConnections st1"
    using Cons.prems(2) p1 m1 by simp
  moreover have "\<forall>r\<in>set rs1. \<not> isl r" using Cons.prems(4) rs by simp
  ultimately have "prismaClients st' = prismaClients st1 @ zip ts (map projr rs1) \<and>
     maxConnections st' = maxConnections st1 \<and> (\<exists>evs. trace st' = trace st1 @ evs)"
    using Cons.IH [OF _ _ rest] by blast
  with p1 m1 t1 rs r show ?case by auto
qed


lemma fifo_scenario:
  assumes empty: "prismaClients st = []" and max: "maxConnections st = int N"
      and ne: "[] \<notin> set ts" and dist: "distinct ts" and len: "length ts = Suc N"
      and ok: "\<forall>r\<in>set (fst (call_all ts st)). \<not> isl r"
  shows "map fst (prismaClients (snd (call_all ts st))) = tl ts \<and>
         status (snd (call_all ts st)) (projr (hd (fst (call_all ts st)))) = Disconnected \<and>
         (\<exists>pre. trace (snd (call_all ts st)) =
                  trace st @ pre @ [PoolSet (last ts) (projr (last (fst (call_all ts st)))),
                                    Disconnect (projr (hd (fst (call_all ts st)))),
                                    Closed (projr (hd (fst (call_all ts st)))),
                                    PoolDelete (hd ts)])"
proof -
  define us where "us = butlast ts"
  define t where "t = last ts"
  define rsu where "rsu = fst (call_all us st)"
  define stu where "stu = snd (call_all us st)"
  define hs where "hs = map projr rsu"
  have "ts \<noteq> []" using len by auto
  then have ts: "ts = us @ [t]" by (simp add: us_def t_def)
  have lus: "length us = N" using len ts by simp
  have lhs: "length hs = length us" by (simp add: hs_def rsu_def call_all_length)
  obtain r st' where g: "getPrismaClient t stu = (r, st')" by (cases "getPrismaClient t stu")
  have all: "call_all ts st = (rsu @ [r], st')"
    using g by (simp add: ts call_all_append rsu_def stu_def)
  from ok all obtain c where r: "r = Inr c" by (cases r) auto
  from ok all have oku: "\<forall>r\<in>set rsu. \<not> isl r" by simp
  have "call_all us st = (rsu, stu)" by (simp add: rsu_def stu_def)
  from call_all_fill [OF _ _ this oku] empty max dist ts lus
  have pu: "prismaClients stu = zip us hs" and mu: "maxConnections stu = int N"
    and tu: "\<exists>evs. trace stu = trace st @ evs"
    by (simp_all add: hs_def)
  have miss: "map_of (prismaClients stu) t = None"
    using dist ts lhs by (auto simp: pu map_of_eq_None_iff dest: set_zip_leftD)
  have q: "prismaClients stu @ [(t, c)] = zip ts (hs @ [c])"
    using lhs by (simp add: pu ts)
  have rs: "map projr (rsu @ [r]) = hs @ [c]" by (simp add: hs_def r)
  obtain k ks where tsk: "ts = k # ks" using len by (cases ts) auto
  obtain ec es where hse: "hs @ [c] = ec # es" by (cases "hs @ [c]") auto
  have "length ks = N" using len tsk by simp
  moreover have "length es = N" using arg_cong [OF hse, of length] lhs lus by simp
  ultimately have les: "length es = length ks" by simp
  have q': "prismaClients stu @ [(t, c)] = (k, ec) # zip ks es"
    by (simp add: q tsk hse)
  have k: "k \<noteq> []" using ne tsk by auto
  have kks: "k \<notin> fst ` set (zip ks es)"
    using dist tsk by (auto dest: set_zip_leftD)
  from getPrismaClient_miss [OF miss g [unfolded r]] q' k mu pu lhs lus
  have p': "prismaClients st' = AList.delete k ((k, ec) # zip ks es)"
    and s': "status st' = (status stu)(c := Connected, ec := Disconnected)"
    and t': "\<exists>pre. trace st' = trace stu @ pre @ [PoolSet t c, Disconnect ec, Closed ec, PoolDelete k]"
    by (auto split: if_splits)
  have "prismaClients st' = zip ks es" using p' kks by simp
  then have keys: "map fst (prismaClients st') = ks" using les by simp
  have hd_ts: "hd ts = k" "tl ts = ks" by (simp_all add: tsk)
  have last_ts: "last ts = t" by (simp add: ts)
  have hd_rs: "projr (hd (rsu @ [r])) = ec"
    using rs hse by (cases "rsu @ [r]") auto
  have last_rs: "projr (last (rsu @ [r])) = c" by (simp add: r)
  from tu t' obtain evs pre where
    "trace st' = trace st @ (evs @ pre) @ [PoolSet t c, Disconnect ec, Closed ec, PoolDelete k]"
    by auto
  then have tr: "\<exists>pre. trace st' = trace st @ pre @ [PoolSet t c, Disconnect ec, Closed ec, PoolDelete k]"
    by blast
  show ?thesis
    unfolding all fst_conv snd_conv hd_ts last_ts hd_rs last_rs
    using keys s' tr by simp
qed


lemma demo_two_calls:
  "fst (call_all [''a'', ''b''] (demo 1)) = [Inr 1, Inr 2]"
  by (simp add: demo_defs run_defs prims case_prod_beta)




subsection \<open>Calls for the same tenant\<close>

text \<open>
  A task that runs alone, without another call between its steps, does what
  \<open>getPrismaClient\<close> does.
\<close>

lemma steps_run_alone:
  "steps 5 (Start tid) st = (Done (fst (getPrismaClient tid st)), snd (getPrismaClient tid st))"
  by (simp add: eval_nat_numeral getPrismaClient_def validateTenant_def getTenantContext_def
        fetchTenantContext_def connect_def admit_client_def evictOldestClient_def disconnect_def
        case_prod_beta Let_def split: option.splits sum.splits)

lemma admit_client_dials [simp]:
  "dials (trace (snd (admit_client tid c st))) = dials (trace st)"
  by (simp add: admit_client_def Let_def pool_set_def evictOldestClient_def evict_target_def
        disconnect_def disconnect_sent_def disconnect_answer_def pool_delete_def
        split: option.splits list.splits)

lemma getPrismaClient_miss_dials:
  assumes miss: "map_of (prismaClients st) tid = None"
      and ok: "getPrismaClient tid st = (Inr c, st')"
  shows "\<exists>u. dials (trace st') = dials (trace st) @ [(c, u)]"
proof -
  have c: "c = next_client st" using getPrismaClient_miss [OF miss ok] by simp
  have late: "fst (getPrismaClient tid st) \<notin>
                {Inl (InvalidTenant tid), Inl (NoDatabaseConfigured tid), Inl (DatabaseConnectionFailed tid)}"
    using ok by simp
  from getPrismaClient_connected [OF miss late] obtain st3 u where
    d3: "dials (trace st3) = dials (trace st) @ [(next_client st, u)]" and
    g: "getPrismaClient tid st = admit_client tid (next_client st) st3"
    by blast
  have "st' = snd (admit_client tid (next_client st) st3)" by (simp add: g [symmetric] ok)
  then show ?thesis using d3 c by simp
qed

lemma getPrismaClient_miss_pooled:
  assumes miss: "map_of (prismaClients st) tid = None"
      and max: "1 \<le> maxConnections st"
      and ok: "getPrismaClient tid st = (Inr c, st')"
  shows "map_of (prismaClients st') tid = Some c"
proof -
  from getPrismaClient_miss [OF miss ok] obtain k ec r where
    q: "prismaClients st @ [(tid, c)] = (k, ec) # r" and
    br: "if maxConnections st < int (length (prismaClients st)) + 1 \<and> k \<noteq> []
         then prismaClients st' = AList.delete k ((k, ec) # r)
         else prismaClients st' = (k, ec) # r"
    by (auto split: if_splits)
  have m: "map_of ((k, ec) # r) tid = Some c"
    using miss by (simp add: q [symmetric] map_add_def)
  show ?thesis
  proof (cases "maxConnections st < int (length (prismaClients st)) + 1 \<and> k \<noteq> []")
    case True
    with max obtain k0 c0 p0 where p: "prismaClients st = (k0, c0) # p0"
      by (cases "prismaClients st") auto
    with q have "k = k0" by simp
    with p miss have "k \<noteq> tid" by (auto split: if_splits)
    with True br m show ?thesis by (simp add: delete_conv' del: delete_simps)
  next
    case False
    with br m show ?thesis by simp
  qed
qed




subsection \<open>Cache entries and their expiry callbacks\<close>

lemma fold_cache_delete:
  "map_of (tenantCache (fold (\<lambda>(d, k). cache_delete k) due st)) tid =
     (if tid \<in> snd ` set due then None else map_of (tenantCache st) tid)"
proof (induction due arbitrary: st)
  case Nil
  then show ?case by simp
next
  case (Cons x due)
  obtain d k where x: "x = (d, k)" by (cases x)
  have "\<And>t. map_of (tenantCache (cache_delete k st)) t = (if t = k then None else map_of (tenantCache st) t)"
    by (simp add: cache_delete_def delete_conv')
  then show ?case
    by (simp add: Cons.IH x)
qed

lemma advance_expires:
  assumes "(d, tid) \<in> set (timers st)" and "d \<le> t"
  shows "map_of (tenantCache (advance t st)) tid = None"
proof -
  from assms have "tid \<in> snd ` set (sort_key fst (filter (\<lambda>(d, k). d \<le> t) (timers st)))"
    by force
  then show ?thesis
    by (simp add: advance_def Let_def fold_cache_delete)
qed

lemma fetchTenantContext_Some:
  assumes "fst (fetchTenantContext tid st) = Some ctx"
  shows "map_of (tenantCache (snd (fetchTenantContext tid st))) tid = Some ctx \<and>
         timers (snd (fetchTenantContext tid st)) =
           timers st @ [(now st + nat (if cacheTtl st < 1 \<or> 2147483647 < cacheTtl st then 1
                                       else cacheTtl st), tid)]"
  using assms
  by (auto simp: fetchTenantContext_def fetchTenantContext_answer_def findUnique_sent_def
        findUnique_answer_def cache_set_def setTimeout_def Let_def update_conv'
        split: option.splits if_splits)

text \<open>
  Claim C3, as the code has it. The handle of \<open>setTimeout\<close> is not kept and no callback
  is ever cancelled. For every tenant id: storing a context after a fetch replaces any
  entry of that id and adds one more callback, due one time-to-live later, to those
  already pending; invalidating the id removes its entry and leaves the pending callbacks
  as they are; and when a callback for the id is due, no entry for the id is left,
  whichever insertion the entry came from.
\<close>

theorem cache_timers_are_never_cancelled:
  "(fst (fetchTenantContext tid st) = Some ctx \<longrightarrow>
      map_of (tenantCache (snd (fetchTenantContext tid st))) tid = Some ctx \<and>
      timers (snd (fetchTenantContext tid st)) =
        timers st @ [(now st + nat (if cacheTtl st < 1 \<or> 2147483647 < cacheTtl st then 1
                                    else cacheTtl st), tid)]) \<and>
   (tid \<noteq> [] \<longrightarrow>
      map_of (tenantCache (clearCache (Some tid) st)) tid = None \<and>
      timers (clearCache (Some tid) st) = timers st) \<and>
   ((d, tid) \<in> set (timers st) \<and> d \<le> t \<longrightarrow> map_of (tenantCache (advance t st)) tid = None)"
  using fetchTenantContext_Some [of tid st ctx] advance_expires [of d tid st t]
  by (simp add: clearCache_def cache_delete_def delete_conv')


theorem cache_timers_are_never_cancelled_witness:
  "fst (fetchTenantContext ''a'' (snd (fetchTenantContext ''a'' (demo 2)))) =
     Some \<lparr>ctx_id = ''a'', ctx_name = ''a'', ctx_config = [], ctx_database = ''pg://h/tenant_a''\<rparr> \<and>
   timers (snd (fetchTenantContext ''a'' (snd (fetchTenantContext ''a'' (demo 2))))) =
     [(100, ''a''), (100, ''a'')] \<and>
   timers (clearCache (Some ''a'') (snd (fetchTenantContext ''a'' (demo 2)))) = [(100, ''a'')] \<and>
   map_of (tenantCache (clearCache (Some ''a'') (snd (fetchTenantContext ''a'' (demo 2))))) ''a'' = None \<and>
   map_of (tenantCache (advance 100 (snd (fetchTenantContext ''a'' (demo 2))))) ''a'' = None"
proof -
  let ?st = "snd (fetchTenantContext ''a'' (demo 2))"
  let ?ctx = "\<lparr>ctx_id = ''a'', ctx_name = ''a'', ctx_config = [], ctx_database = ''pg://h/tenant_a''\<rparr>"
  have t: "timers ?st = [(100, ''a'')]" "now ?st = 0" "cacheTtl ?st = 100"
    by (simp_all add: demo_defs run_defs prims)
  have f: "fst (fetchTenantContext ''a'' ?st) = Some ?ctx"
    by (simp add: demo_defs run_defs prims)
  have n: "''a'' \<noteq> []" by simp
  have d: "(100, ''a'') \<in> set (timers ?st) \<and> (100::nat) \<le> 100" by (simp add: t)
  from cache_timers_are_never_cancelled [of "''a''" ?st ?ctx 100 100] f n d t
  show ?thesis by simp
qed

text \<open>
  The claim as stated fails: the context of \<open>a\<close> is cached at time 0 with a
  time-to-live of 100, invalidated at time 50 and fetched again at once. The callback of
  the first entry is still pending; at time 100 it deletes the second entry, whose own
  callback is due at 150.
\<close>

theorem stale_timer_evicts_newer_entry_counterexample:
  "timers (clearCache (Some ''a'') (advance 50 (snd (getTenantContext ''a'' (demo 2))))) = [(100, ''a'')] \<and>
   map_of (tenantCache (snd (getTenantContext ''a''
      (clearCache (Some ''a'') (advance 50 (snd (getTenantContext ''a'' (demo 2)))))))) ''a'' \<noteq> None \<and>
   timers (snd (getTenantContext ''a''
      (clearCache (Some ''a'') (advance 50 (snd (getTenantContext ''a'' (demo 2))))))) =
     [(100, ''a''), (150, ''a'')] \<and>
   now (advance 100 (snd (getTenantContext ''a''
      (clearCache (Some ''a'') (advance 50 (snd (getTenantContext ''a'' (demo 2)))))))) = 100 \<and>
   map_of (tenantCache (advance 100 (snd (getTenantContext ''a''
      (clearCache (Some ''a'') (advance 50 (snd (getTenantContext ''a'' (demo 2))))))))) ''a'' = None"
  by (simp add: demo_defs run_defs prims advance_def clearCache_def)

subsection \<open>Provisioning\<close>

lemmas prov_defs = createTenantDatabase_def createTenantDatabase_body_def dropTenantDatabase_def
  dropTenantDatabase_body_def getDatabaseUrlForTenant_def Let_def

lemma delete_absent: "map_of al k = None \<Longrightarrow> AList.delete k al = al"
  by (simp add: map_of_eq_None_iff)

text \<open>
  Claim C4. For every tenant id, \<open>dropTenantDatabase\<close> does its steps in the required
  order, each only after the one before it has succeeded. Its effects, as recorded, are
  an initial part of the required order (disconnect the pooled client and delete its entry
  if there is one, terminate the sessions on the tenant's database, drop the database,
  delete the cached context), and the whole of it exactly when the method returns
  \<open>true\<close>. In the state: the pool entry is deleted and its client disconnected when
  the \<open>$disconnect\<close> resolves; the sessions of the database are gone when, after that,
  the terminate statement succeeds; the database is gone and the cached context deleted
  when, after that, the drop statement succeeds; and the result is \<open>true\<close> exactly
  then. Whatever is not reached is left as it was.
\<close>

theorem dropTenantDatabase_order:
  "(\<exists>evs. trace (snd (dropTenantDatabase tid st)) = trace st @ evs \<and>
          prefix evs (spec_drop_order tid st) \<and>
          (fst (dropTenantDatabase tid st) = Inr True \<longleftrightarrow> evs = spec_drop_order tid st)) \<and>
   fst (dropTenantDatabase tid st) =
     Inr ((\<forall>c. map_of (prismaClients st) tid = Some c \<longrightarrow> disconnect_ok (backend st) c) \<and>
          \<not> fails (backend st) (ExecuteRaw (TerminateBackends (''tenant_'' @ tid))) \<and>
          \<not> fails (backend st) (ExecuteRaw (DropDatabaseIfExists (''tenant_'' @ tid)))) \<and>
   prismaClients (snd (dropTenantDatabase tid st)) =
     (if \<forall>c. map_of (prismaClients st) tid = Some c \<longrightarrow> disconnect_ok (backend st) c
      then AList.delete tid (prismaClients st) else prismaClients st) \<and>
   (\<forall>c. status (snd (dropTenantDatabase tid st)) c =
      (if map_of (prismaClients st) tid = Some c \<and> disconnect_ok (backend st) c
       then Disconnected else status st c)) \<and>
   sessions (backend (snd (dropTenantDatabase tid st))) =
     (if (\<forall>c. map_of (prismaClients st) tid = Some c \<longrightarrow> disconnect_ok (backend st) c) \<and>
         \<not> fails (backend st) (ExecuteRaw (TerminateBackends (''tenant_'' @ tid)))
      then removeAll (''tenant_'' @ tid) (sessions (backend st)) else sessions (backend st)) \<and>
   databases (backend (snd (dropTenantDatabase tid st))) =
     (if (\<forall>c. map_of (prismaClients st) tid = Some c \<longrightarrow> disconnect_ok (backend st) c) \<and>
         \<not> fails (backend st) (ExecuteRaw (TerminateBackends (''tenant_'' @ tid))) \<and>
         \<not> fails (backend st) (ExecuteRaw (DropDatabaseIfExists (''tenant_'' @ tid)))
      then removeAll (''tenant_'' @ tid) (databases (backend st)) else databases (backend st)) \<and>
   tenantCache (snd (dropTenantDatabase tid st)) =
     (if (\<forall>c. map_of (prismaClients st) tid = Some c \<longrightarrow> disconnect_ok (backend st) c) \<and>
         \<not> fails (backend st) (ExecuteRaw (TerminateBackends (''tenant_'' @ tid))) \<and>
         \<not> fails (backend st) (ExecuteRaw (DropDatabaseIfExists (''tenant_'' @ tid)))
      then AList.delete tid (tenantCache st) else tenantCache st)"
proof (cases "map_of (prismaClients st) tid")
  case None
  then show ?thesis
    by (simp add: prov_defs prims spec_drop_order_def delete_absent del: delete_simps)
next
  case (Some c)
  then show ?thesis
    by (simp add: prov_defs prims spec_drop_order_def del: delete_simps)
qed

theorem dropTenantDatabase_order_witness:
  "map_of (prismaClients (snd (getPrismaClient ''a'' (demo 2)))) ''a'' = Some 1 \<and>
   sessions (backend (snd (getPrismaClient ''a'' (demo 2)))) = [''tenant_a''] \<and>
   databases (backend (snd (getPrismaClient ''a'' (demo 2)))) = [''tenant_old'', ''tenant_a''] \<and>
   isl (fst (executeRawUnsafe (DropDatabaseIfExists ''tenant_a'') (snd (getPrismaClient ''a'' (demo 2))))) \<and>
   map fst (tenantCache (snd (getPrismaClient ''a'' (demo 2)))) = [''a''] \<and>
   fst (dropTenantDatabase ''a'' (snd (getPrismaClient ''a'' (demo 2)))) = Inr True \<and>
   trace (snd (dropTenantDatabase ''a'' (snd (getPrismaClient ''a'' (demo 2))))) =
     trace (snd (getPrismaClient ''a'' (demo 2))) @
     [Disconnect 1, Closed 1, PoolDelete ''a'',
      Issued (ExecuteRaw (TerminateBackends ''tenant_a'')),
      Issued (ExecuteRaw (DropDatabaseIfExists ''tenant_a'')),
      CacheDelete ''a''] \<and>
   prismaClients (snd (dropTenantDatabase ''a'' (snd (getPrismaClient ''a'' (demo 2))))) = [] \<and>
   status (snd (dropTenantDatabase ''a'' (snd (getPrismaClient ''a'' (demo 2))))) 1 = Disconnected \<and>
   sessions (backend (snd (dropTenantDatabase ''a'' (snd (getPrismaClient ''a'' (demo 2)))))) = [] \<and>
   databases (backend (snd (dropTenantDatabase ''a'' (snd (getPrismaClient ''a'' (demo 2)))))) =
     [''tenant_old''] \<and>
   tenantCache (snd (dropTenantDatabase ''a'' (snd (getPrismaClient ''a'' (demo 2))))) = []"
proof -
  let ?st = "snd (getPrismaClient ''a'' (demo 2))"
  have f: "disconnect_ok (backend ?st) 1"
    "\<not> fails (backend ?st) (ExecuteRaw (TerminateBackends (''tenant_'' @ ''a'')))"
    "\<not> fails (backend ?st) (ExecuteRaw (DropDatabaseIfExists (''tenant_'' @ ''a'')))"
    "sessions (backend ?st) = [''tenant_a'']"
    "databases (backend ?st) = [''tenant_old'', ''tenant_a'']"
    by (simp_all add: demo_defs)
  have p: "prismaClients ?st = [(''a'', 1)]" "map fst (tenantCache ?st) = [''a'']"
    by (simp_all add: demo_defs run_defs prims)
  then obtain v where c: "tenantCache ?st = [(''a'', v)]" by (cases "tenantCache ?st") auto
  have x: "isl (fst (executeRawUnsafe (DropDatabaseIfExists ''tenant_a'') ?st))"
    by (simp add: executeRawUnsafe_def Let_def demo_defs)
  have o: "spec_drop_order ''a'' ?st =
     [Disconnect 1, Closed 1, PoolDelete ''a'',
      Issued (ExecuteRaw (TerminateBackends ''tenant_a'')),
      Issued (ExecuteRaw (DropDatabaseIfExists ''tenant_a'')),
      CacheDelete ''a'']"
    by (simp add: spec_drop_order_def p)
  from dropTenantDatabase_order [of "''a''" ?st] f p c o x show ?thesis
    by auto
qed

text \<open>
  Claim C5, as the code has it. The provisioning methods raise nothing: the \<open>catch\<close>
  of each logs the error and the method returns \<open>false\<close>. \<open>createTenantDatabase\<close>
  returns \<open>false\<close> if the database exists or the create statement is rejected, and
  \<open>true\<close> exactly when every call it makes succeeds: the create statement, the
  \<open>$disconnect\<close> of the client it opened, and the update of the directory.
  \<open>dropTenantDatabase\<close> returns \<open>true\<close> exactly when the \<open>$disconnect\<close> of the
  pooled client, if there is one, and both of its statements succeed; backup and restore
  send nothing to the server and return \<open>true\<close>.
\<close>

theorem provisioning_failure_returns_false:
  "\<not> isl (fst (createTenantDatabase tid st)) \<and> \<not> isl (fst (dropTenantDatabase tid st)) \<and>
   (''tenant_'' @ tid \<in> set (databases (backend st)) \<or>
      fails (backend st) (ExecuteRaw (CreateDatabase (''tenant_'' @ tid))) \<longrightarrow>
      fst (createTenantDatabase tid st) = Inr False) \<and>
   (fst (createTenantDatabase tid st) = Inr True \<longleftrightarrow>
      \<not> fails (backend st) (ExecuteRaw (CreateDatabase (''tenant_'' @ tid))) \<and>
      ''tenant_'' @ tid \<notin> set (databases (backend st)) \<and>
      disconnect_ok (backend st) (next_client st) \<and>
      \<not> fails (backend st) (UpdateConfig tid [(''databaseUrl'', getDatabaseUrlForTenant st tid)]) \<and>
      tenants (backend st) tid \<noteq> None) \<and>
   (fst (dropTenantDatabase tid st) = Inr True \<longleftrightarrow>
      (\<forall>c. map_of (prismaClients st) tid = Some c \<longrightarrow> disconnect_ok (backend st) c) \<and>
      \<not> fails (backend st) (ExecuteRaw (TerminateBackends (''tenant_'' @ tid))) \<and>
      \<not> fails (backend st) (ExecuteRaw (DropDatabaseIfExists (''tenant_'' @ tid)))) \<and>
   backupTenantDatabase tid path st = (Inr True, st) \<and>
   restoreTenantDatabase tid path st = (Inr True, st)"
  by (auto simp: prov_defs prims backupTenantDatabase_def restoreTenantDatabase_def
        split: option.splits)

theorem provisioning_failure_returns_false_witness:
  "''tenant_old'' \<in> set (databases (backend (demo 2))) \<and>
   fst (createTenantDatabase ''old'' (demo 2)) = Inr False \<and>
   fst (createTenantDatabase ''gold'' (demo 2)) = Inr True \<and>
   fst (dropTenantDatabase ''gold'' (demo 2)) = Inr True"
proof -
  have h: "''tenant_'' @ ''old'' \<in> set (databases (backend (demo 2)))"
    by (simp add: demo_defs)
  have g: "\<not> fails (backend (demo 2)) (ExecuteRaw (CreateDatabase (''tenant_'' @ ''gold''))) \<and>
      ''tenant_'' @ ''gold'' \<notin> set (databases (backend (demo 2))) \<and>
      disconnect_ok (backend (demo 2)) (next_client (demo 2)) \<and>
      \<not> fails (backend (demo 2))
          (UpdateConfig ''gold'' [(''databaseUrl'', getDatabaseUrlForTenant (demo 2) ''gold'')]) \<and>
      tenants (backend (demo 2)) ''gold'' \<noteq> None"
    by (simp add: demo_defs)
  have d: "(\<forall>c. map_of (prismaClients (demo 2)) ''gold'' = Some c \<longrightarrow> disconnect_ok (backend (demo 2)) c) \<and>
      \<not> fails (backend (demo 2)) (ExecuteRaw (TerminateBackends (''tenant_'' @ ''gold''))) \<and>
      \<not> fails (backend (demo 2)) (ExecuteRaw (DropDatabaseIfExists (''tenant_'' @ ''gold'')))"
    by (simp add: demo_defs)
  from provisioning_failure_returns_false [of "''old''" "demo 2"]
       provisioning_failure_returns_false [of "''gold''" "demo 2"] h g d
  show ?thesis by simp
qed

text \<open>
  The claim as stated fails: where the database exists already, or the server refuses
  the drop, the call does not fail with an error but returns \<open>false\<close>. For a tenant
  without a directory row the database is created, the update is rejected, and the
  caller receives the same \<open>false\<close>.
\<close>

theorem provisioning_failure_not_raised_counterexample:
  "''tenant_old'' \<in> set (databases (backend (demo 2))) \<and>
   fst (createTenantDatabase ''old'' (demo 2)) = Inr False \<and>
   fails (backend (demo 2)) (ExecuteRaw (DropDatabaseIfExists ''tenant_locked'')) \<and>
   fst (dropTenantDatabase ''locked'' (demo 2)) = Inr False \<and>
   fst (createTenantDatabase ''ghost'' (demo 2)) = Inr False \<and>
   ''tenant_ghost'' \<in> set (databases (backend (snd (createTenantDatabase ''ghost'' (demo 2)))))"
  by (simp add: demo_defs prov_defs prims js_replace_def)

text \<open>
  Claim C6. \<open>createTenantDatabase\<close> never touches the pool. The update of the
  directory is sent only when the create statement has succeeded, after it; and unless
  the method returns \<open>true\<close> the tenant table is the one before the call.
\<close>

theorem createTenantDatabase_directory:
  "prismaClients (snd (createTenantDatabase tid st)) = prismaClients st \<and>
   (fst (createTenantDatabase tid st) \<noteq> Inr True \<longrightarrow>
      tenants (backend (snd (createTenantDatabase tid st))) = tenants (backend st)) \<and>
   trace (snd (createTenantDatabase tid st)) =
     trace st @
     (if fails (backend st) (ExecuteRaw (CreateDatabase (''tenant_'' @ tid))) \<or>
         ''tenant_'' @ tid \<in> set (databases (backend st))
      then [Issued (ExecuteRaw (CreateDatabase (''tenant_'' @ tid)))]
      else if \<not> disconnect_ok (backend st) (next_client st)
      then [Issued (ExecuteRaw (CreateDatabase (''tenant_'' @ tid))),
            Disconnect (next_client st)]
      else [Issued (ExecuteRaw (CreateDatabase (''tenant_'' @ tid))),
            Disconnect (next_client st), Closed (next_client st),
            Issued (UpdateConfig tid [(''databaseUrl'', getDatabaseUrlForTenant st tid)])])"
  by (auto simp: prov_defs prims split: option.splits)

theorem createTenantDatabase_directory_witness:
  "fst (createTenantDatabase ''old'' (demo 2)) \<noteq> Inr True \<and>
   prismaClients (snd (createTenantDatabase ''old'' (demo 2))) = [] \<and>
   tenants (backend (snd (createTenantDatabase ''old'' (demo 2)))) = tenants (backend (demo 2)) \<and>
   trace (snd (createTenantDatabase ''old'' (demo 2))) =
     [Issued (ExecuteRaw (CreateDatabase ''tenant_old''))]"
proof -
  have f: "fst (createTenantDatabase ''old'' (demo 2)) \<noteq> Inr True"
    by (simp add: demo_defs prov_defs prims)
  have e: "prismaClients (demo 2) = []" "trace (demo 2) = []"
    "''tenant_old'' \<in> set (databases (backend (demo 2)))"
    by (simp_all add: demo_defs)
  from createTenantDatabase_directory [of "''old''" "demo 2"] f e show ?thesis by simp
qed

text \<open>
  Claim C10. When \<open>createTenantDatabase\<close> returns \<open>true\<close>, the tenant's row has as
  its \<open>config\<close> the object with the single key \<open>databaseUrl\<close> and the URL derived
  from the template; the keys the configuration had before are gone, and the rest of the
  table is unchanged.
\<close>

theorem createTenantDatabase_overwrites_config:
  assumes "fst (createTenantDatabase tid st) = Inr True"
  shows "\<exists>t. tenants (backend st) tid = Some t \<and>
             tenants (backend (snd (createTenantDatabase tid st))) =
               (tenants (backend st))
                 (tid \<mapsto> t\<lparr>tr_config := Some [(''databaseUrl'', getDatabaseUrlForTenant st tid)]\<rparr>)"
  using assms by (auto simp: prov_defs prims split: option.splits if_splits)

theorem createTenantDatabase_overwrites_config_witness:
  "map_option tr_config (tenants (backend (demo 2)) ''gold'') = Some (Some [(''plan'', ''gold'')]) \<and>
   fst (createTenantDatabase ''gold'' (demo 2)) = Inr True \<and>
   map_option tr_config (tenants (backend (snd (createTenantDatabase ''gold'' (demo 2)))) ''gold'') =
     Some (Some [(''databaseUrl'', ''pg://h/tenant_gold'')])"
proof -
  have f: "fst (createTenantDatabase ''gold'' (demo 2)) = Inr True"
    by (simp add: demo_defs prov_defs prims)
  have u: "getDatabaseUrlForTenant (demo 2) ''gold'' = ''pg://h/tenant_gold''"
    by (simp add: demo_defs getDatabaseUrlForTenant_def js_replace_def)
  have c: "map_option tr_config (tenants (backend (demo 2)) ''gold'') = Some (Some [(''plan'', ''gold'')])"
    by (simp add: demo_defs)
  from createTenantDatabase_overwrites_config [OF f] f u c show ?thesis by auto
qed

subsection \<open>Shutdown\<close>

lemma fold_disconnect_sent:
  "prismaClients (fold disconnect_sent cs st) = prismaClients st \<and>
   masterClient (fold disconnect_sent cs st) = masterClient st \<and>
   backend (fold disconnect_sent cs st) = backend st \<and>
   status (fold disconnect_sent cs st) = status st \<and>
   trace (fold disconnect_sent cs st) = trace st @ map Disconnect cs"
  by (induction cs arbitrary: st) (simp_all add: disconnect_sent_def)

lemma Promise_all_frame:
  "prismaClients (snd (Promise_all cs st)) = prismaClients st \<and>
   masterClient (snd (Promise_all cs st)) = masterClient st \<and>
   backend (snd (Promise_all cs st)) = backend st \<and>
   (\<forall>c. c \<notin> set cs \<longrightarrow> status (snd (Promise_all cs st)) c = status st c) \<and>
   (\<exists>k. trace (snd (Promise_all cs st)) = trace st @ map Closed (take k cs))"
proof (induction cs arbitrary: st)
  case Nil
  then show ?case by simp
next
  case (Cons c cs)
  show ?case
  proof (cases "disconnect_ok (backend st) c")
    case False
    then have "trace (snd (Promise_all (c # cs) st)) = trace st @ map Closed (take 0 (c # cs))"
      by (simp add: disconnect_answer_def)
    then have "\<exists>k. trace (snd (Promise_all (c # cs) st)) = trace st @ map Closed (take k (c # cs))"
      by blast
    with False show ?thesis by (simp add: disconnect_answer_def)
  next
    case True
    let ?st1 = "emit (Closed c) (st\<lparr>status := (status st)(c := Disconnected)\<rparr>)"
    have p: "Promise_all (c # cs) st = Promise_all cs ?st1"
      using True by (simp add: disconnect_answer_def)
    from Cons.IH [of ?st1] obtain k where
      k: "trace (snd (Promise_all cs ?st1)) = trace ?st1 @ map Closed (take k cs)" by blast
    then have "trace (snd (Promise_all (c # cs) st)) = trace st @ map Closed (take (Suc k) (c # cs))"
      by (simp add: p del: Promise_all.simps)
    then have "\<exists>k. trace (snd (Promise_all (c # cs) st)) = trace st @ map Closed (take k (c # cs))"
      by blast
    with Cons.IH [of ?st1] show ?thesis by (simp add: p del: Promise_all.simps)
  qed
qed

lemma Promise_all_ok:
  "\<forall>c\<in>set cs. disconnect_ok (backend st) c \<Longrightarrow>
   fst (Promise_all cs st) = Inr () \<and>
   (\<forall>c\<in>set cs. status (snd (Promise_all cs st)) c = Disconnected) \<and>
   trace (snd (Promise_all cs st)) = trace st @ map Closed cs"
proof (induction cs arbitrary: st)
  case Nil
  then show ?case by simp
next
  case (Cons c cs)
  let ?st1 = "emit (Closed c) (st\<lparr>status := (status st)(c := Disconnected)\<rparr>)"
  have p: "Promise_all (c # cs) st = Promise_all cs ?st1"
    using Cons.prems by (simp add: disconnect_answer_def)
  have "\<forall>c\<in>set cs. disconnect_ok (backend ?st1) c" using Cons.prems by simp
  from Cons.IH [OF this] Promise_all_frame [of cs ?st1] show ?case
    by (auto simp: p simp del: Promise_all.simps)
qed

lemma Promise_all_fail:
  "\<exists>c\<in>set cs. \<not> disconnect_ok (backend st) c \<Longrightarrow>
   \<exists>c\<in>set cs. \<not> disconnect_ok (backend st) c \<and> fst (Promise_all cs st) = Inl (DisconnectFailed c)"
proof (induction cs arbitrary: st)
  case Nil
  then show ?case by simp
next
  case (Cons c cs)
  show ?case
  proof (cases "disconnect_ok (backend st) c")
    case False
    then show ?thesis by (simp add: disconnect_answer_def)
  next
    case True
    let ?st1 = "emit (Closed c) (st\<lparr>status := (status st)(c := Disconnected)\<rparr>)"
    have p: "Promise_all (c # cs) st = Promise_all cs ?st1"
      using True by (simp add: disconnect_answer_def)
    have "\<exists>c\<in>set cs. \<not> disconnect_ok (backend ?st1) c" using Cons.prems True by auto
    from Cons.IH [OF this] show ?thesis by (auto simp: p simp del: Promise_all.simps)
  qed
qed




end
